theory Spec2Isabelle
  imports Complex_Main "HOL-Library.Char_ord" "HOL-Library.List_Lexorder"
begin

section \<open>Values, errors and JSONL files\<close>

text \<open>
  Records are plain Python dicts decoded from JSON. A dict is an association list (keys in
  insertion order), a JSON value is one of the native JSON kinds. Floats do not occur in the
  fields the modelled code reads and are left out.
\<close>

datatype json =
    JNull
  | JBool bool
  | JInt int
  | JStr string
  | JList "json list"
  | JDict "(string \<times> json) list"

text \<open>The exceptions the modelled code can raise. \<open>ValueError\<close> carries its message.\<close>

datatype error =
    ValueError string
  | JSONDecodeError
  | AttributeError
  | TypeError
  | KeyError

text \<open>
  A JSONL file is the list of its lines. A line is represented by what \<open>line.strip()\<close> and
  \<open>json.loads\<close> make of it: \<open>Blank\<close> is a line of whitespace only, \<open>Json v\<close> a line whose
  text decodes to \<open>v\<close>, and \<open>Malformed\<close> a line with some other text, on which \<open>json.loads\<close>
  raises \<open>JSONDecodeError\<close>. A record written with \<open>json.dumps(record) + "\n"\<close> is the line
  \<open>Json record\<close>.
\<close>

datatype line = Blank | Malformed | Json json

type_synonym jsonl = "line list"

text \<open>
  The reading loop shared by \<open>_load_version_records\<close> and \<open>merge_to_training\<close>:
  \<^verbatim>\<open>
    for line in f:
        line = line.strip()
        if line:
            records.append(json.loads(line))
  \<close>
  The first malformed line raises and ends the loop.
\<close>

fun read_jsonl :: "jsonl \<Rightarrow> error + json list" where
  "read_jsonl [] = Inr []"
| "read_jsonl (Blank # ls) = read_jsonl ls"
| "read_jsonl (Malformed # ls) = Inl JSONDecodeError"
| "read_jsonl (Json v # ls) =
     (case read_jsonl ls of Inl e \<Rightarrow> Inl e | Inr rs \<Rightarrow> Inr (v # rs))"

text \<open>Python truthiness of a decoded value (\<open>if not content\<close>, \<open>x or y\<close>).\<close>

fun truthy :: "json \<Rightarrow> bool" where
  "truthy JNull = False"
| "truthy (JBool b) = b"
| "truthy (JInt n) = (n \<noteq> 0)"
| "truthy (JStr s) = (s \<noteq> [])"
| "truthy (JList xs) = (xs \<noteq> [])"
| "truthy (JDict kvs) = (kvs \<noteq> [])"

text \<open>\<open>d.get(key, default)\<close> on a dict.\<close>

definition dict_get :: "(string \<times> json) list \<Rightarrow> string \<Rightarrow> json \<Rightarrow> json" where
  "dict_get d k dflt = (case map_of d k of None \<Rightarrow> dflt | Some v \<Rightarrow> v)"

section \<open>Dataset versioning (pipeline/versioning.py)\<close>

subsection \<open>Data model\<close>

record version_info =
  version :: string
  created_at :: string
  description :: string
  record_count :: nat
  sources :: "string list"
  parent_version :: "string option"

text \<open>The manifest \<open>{"versions": [...], "current": ...}\<close>; \<open>None\<close> is JSON null.\<close>

record manifest =
  versions :: "version_info list"
  current :: "string option"

text \<open>
  A version directory \<open>versions/<id>/\<close> with the two files the code writes into it; a file
  that does not exist is \<open>None\<close>.
\<close>

record vdir =
  records_file :: "jsonl option"
  info_file :: "version_info option"

text \<open>
  The state a \<open>VersionManager\<close> works on: its in-memory manifest, the manifest file, the
  directories under \<open>versions/\<close> by name, the configured \<open>training_data_dir\<close> and the files in
  that directory by name. Version ids are single path components (not
  empty, not \<open>.\<close> or \<open>..\<close>, without a separator), so that \<open>versions_dir / id\<close> names
  the entry \<open>id\<close> of \<open>vdirs\<close> and no other directory.
\<close>

record store =
  manifest :: manifest
  manifest_file :: "manifest option"
  vdirs :: "string \<rightharpoonup> vdir"
  training_data_dir :: "string option"
  training_files :: "string \<rightharpoonup> jsonl"

text \<open>A path is a directory and a file name in it.\<close>

type_synonym path = "string \<times> string"

subsection \<open>Manifest load and save\<close>

definition load_manifest :: "store \<Rightarrow> store" where
  "load_manifest s =
     (case manifest_file s of
        Some m \<Rightarrow> s\<lparr>manifest := m\<rparr>
      | None \<Rightarrow> s\<lparr>manifest := \<lparr>versions = [], current = None\<rparr>\<rparr>)"

definition save_manifest :: "store \<Rightarrow> store" where
  "save_manifest s = s\<lparr>manifest_file := Some (manifest s)\<rparr>"

subsection \<open>Version ids\<close>

text \<open>
  \<open>str.isspace\<close> on the ASCII range: tab, line feed, vertical tab, form feed, carriage
  return, the four separators 0x1c to 0x1f, and space.
\<close>

definition is_space :: "char \<Rightarrow> bool" where
  "is_space c = (let n = (of_char c :: nat) in (9 \<le> n \<and> n \<le> 13) \<or> (28 \<le> n \<and> n \<le> 32))"

definition is_digit :: "char \<Rightarrow> bool" where
  "is_digit c = (let n = (of_char c :: nat) in 48 \<le> n \<and> n \<le> 57)"

definition digit_val :: "char \<Rightarrow> int" where
  "digit_val c = int (of_char c) - 48"

definition strip :: "string \<Rightarrow> string" where
  "strip s = rev (dropWhile is_space (rev (dropWhile is_space s)))"

text \<open>\<open>v.lstrip("v")\<close> removes every leading \<open>v\<close>.\<close>

definition lstrip_v :: "string \<Rightarrow> string" where
  "lstrip_v s = dropWhile (\<lambda>c. c = CHR ''v'') s"

text \<open>
  The digits of an \<open>int(...)\<close> literal: at least one digit, single underscores allowed
  between digits only.
\<close>

fun digits_ok :: "string \<Rightarrow> bool" where
  "digits_ok [] = False"
| "digits_ok [c] = is_digit c"
| "digits_ok (c # d # cs) =
     (is_digit c \<and> (if d = CHR ''_'' then digits_ok cs else digits_ok (d # cs)))"

definition digits_value :: "string \<Rightarrow> int" where
  "digits_value s = foldl (\<lambda>a c. 10 * a + digit_val c) 0 (filter is_digit s)"

text \<open>
  \<open>int(s)\<close> for a string in base 10: surrounding whitespace is skipped, an optional sign
  follows, then the digits. \<open>None\<close> stands for the \<open>ValueError\<close> that \<open>int\<close> raises. On an
  ASCII string \<open>int\<close> skips tab, line feed, vertical tab, form feed, carriage return and
  space only; the separators 0x1c to 0x1f, which \<open>str.strip\<close> removes, make it raise.
\<close>

definition is_int_space :: "char \<Rightarrow> bool" where
  "is_int_space c = (let n = (of_char c :: nat) in (9 \<le> n \<and> n \<le> 13) \<or> n = 32)"

definition int_strip :: "string \<Rightarrow> string" where
  "int_strip s = rev (dropWhile is_int_space (rev (dropWhile is_int_space s)))"

definition py_int :: "string \<Rightarrow> int option" where
  "py_int s =
     (case int_strip s of
        [] \<Rightarrow> None
      | c # cs \<Rightarrow>
          if c = CHR ''-'' then (if digits_ok cs then Some (- digits_value cs) else None)
          else if c = CHR ''+'' then (if digits_ok cs then Some (digits_value cs) else None)
          else if digits_ok (c # cs) then Some (digits_value (c # cs)) else None)"

text \<open>Decimal digits of a natural number, most significant first.\<close>

fun nat_digits :: "nat \<Rightarrow> string" where
  "nat_digits n =
     (if n < 10 then [char_of (48 + n)]
      else nat_digits (n div 10) @ [char_of (48 + n mod 10)])"

declare nat_digits.simps [simp del]

definition zero_pad :: "nat \<Rightarrow> string \<Rightarrow> string" where
  "zero_pad w s = replicate (w - length s) (CHR ''0'') @ s"

text \<open>
  The format \<open>{n:03d}\<close>: zero padding to a total width of 3, the sign (if any) counted in
  the width and written first.
\<close>

definition fmt_03d :: "int \<Rightarrow> string" where
  "fmt_03d n =
     (if n < 0 then CHR ''-'' # zero_pad 2 (nat_digits (nat (- n)))
      else zero_pad 3 (nat_digits (nat n)))"

text \<open>\<open>max\<close> over a generator; the caller has checked that it is not empty.\<close>

fun py_max :: "int list \<Rightarrow> int" where
  "py_max [] = 0"
| "py_max (x # xs) = fold max xs x"

text \<open>
  The generator \<open>int(v.lstrip("v")) for v in existing\<close>, consumed by \<open>max\<close>: the first id
  that \<open>int\<close> rejects raises \<open>ValueError\<close>.
\<close>

fun version_numbers :: "string list \<Rightarrow> int list option" where
  "version_numbers [] = Some []"
| "version_numbers (v # vs) =
     (case py_int (lstrip_v v) of
        None \<Rightarrow> None
      | Some n \<Rightarrow> (case version_numbers vs of None \<Rightarrow> None | Some ns \<Rightarrow> Some (n # ns)))"

text \<open>
  \<open>_next_version\<close>. The message of the \<open>ValueError\<close> from \<open>int\<close> ends, in Python, with the
  rejected literal; the model keeps the part before it.
\<close>

definition next_version :: "manifest \<Rightarrow> error + string" where
  "next_version m =
     (let existing = map version (versions m) in
      if existing = [] then Inr ''v001''
      else (case version_numbers existing of
              None \<Rightarrow> Inl (ValueError ''invalid literal for int() with base 10'')
            | Some nums \<Rightarrow> Inr (CHR ''v'' # fmt_03d (py_max nums + 1))))"

subsection \<open>Operations\<close>

text \<open>
  Every operation returns its result (\<open>Inl\<close> the exception raised) together with the store
  as the call leaves it.
\<close>

definition load_version_records :: "store \<Rightarrow> string \<Rightarrow> error + json list" where
  "load_version_records s v =
     (case vdirs s v of
        None \<Rightarrow> Inr []
      | Some d \<Rightarrow> (case records_file d of None \<Rightarrow> Inr [] | Some ls \<Rightarrow> read_jsonl ls))"

text \<open>
  \<open>create_snapshot(records, description, sources)\<close>; \<open>now\<close> is the timestamp
  \<open>datetime.now(timezone.utc).isoformat()\<close> read during the call. \<open>mkdir(exist_ok=True)\<close>
  keeps an existing directory; both files are opened with mode \<open>"w"\<close>.
\<close>

definition create_snapshot ::
  "store \<Rightarrow> json list \<Rightarrow> string \<Rightarrow> string list option \<Rightarrow> string \<Rightarrow> (error + string) \<times> store"
where
  "create_snapshot s records descr srcs now =
     (case next_version (manifest s) of
        Inl e \<Rightarrow> (Inl e, s)
      | Inr v \<Rightarrow>
          let info = \<lparr>version = v, created_at = now, description = descr,
                      record_count = length records,
                      sources = (case srcs of None \<Rightarrow> [] | Some l \<Rightarrow> l),
                      parent_version = current (manifest s)\<rparr>;
              s1 = s\<lparr>vdirs := (vdirs s)(v \<mapsto>
                       \<lparr>records_file = Some (map Json records), info_file = Some info\<rparr>)\<rparr>;
              s2 = s1\<lparr>manifest := \<lparr>versions = versions (manifest s1) @ [info],
                                     current = Some v\<rparr>\<rparr>
          in (Inr v, save_manifest s2))"

definition rollback :: "store \<Rightarrow> string \<Rightarrow> (error + json list) \<times> store" where
  "rollback s target_version =
     (if vdirs s target_version = None
      then (Inl (ValueError (''Version '' @ target_version @ '' not found'')), s)
      else (case load_version_records s target_version of
              Inl e \<Rightarrow> (Inl e, s)
            | Inr records \<Rightarrow>
                (Inr records,
                 save_manifest (s\<lparr>manifest := (manifest s)\<lparr>current := Some target_version\<rparr>\<rparr>))))"

definition list_versions :: "store \<Rightarrow> version_info list" where
  "list_versions s = versions (manifest s)"

text \<open>
  \<open>delete_version(version)\<close>. \<open>shutil.rmtree(versions_dir / version)\<close> runs when that path
  exists; for an id that is a single path component it removes the directory of that id
  and no other.
\<close>

definition delete_version :: "store \<Rightarrow> string \<Rightarrow> (error + unit) \<times> store" where
  "delete_version s v =
     (if Some v = current (manifest s)
      then (Inl (ValueError ''Cannot delete the current version. Rollback first.''), s)
      else
        let s1 = s\<lparr>vdirs := (vdirs s)(v := None)\<rparr>;
            s2 = s1\<lparr>manifest := (manifest s1)\<lparr>versions :=
                       filter (\<lambda>i. version i \<noteq> v) (versions (manifest s1))\<rparr>\<rparr>
        in (Inr (), save_manifest s2))"

text \<open>
  \<open>merge_to_training(version=None)\<close>. \<open>version or self.manifest.get("current")\<close> takes the
  argument unless it is \<open>None\<close> or empty.
\<close>

definition resolve_version :: "store \<Rightarrow> string option \<Rightarrow> string option" where
  "resolve_version s arg =
     (case arg of
        None \<Rightarrow> current (manifest s)
      | Some v \<Rightarrow> if v = [] then current (manifest s) else Some v)"

definition merge_to_training :: "store \<Rightarrow> string option \<Rightarrow> (error + path) \<times> store" where
  "merge_to_training s arg =
     (case training_data_dir s of
        None \<Rightarrow> (Inl (ValueError ''No training_data_dir configured''), s)
      | Some dir \<Rightarrow>
         (case resolve_version s arg of
            None \<Rightarrow> (Inl (ValueError ''No version specified and no current version''), s)
          | Some v \<Rightarrow>
             if v = [] then (Inl (ValueError ''No version specified and no current version''), s)
             else
              (case load_version_records s v of
                 Inl e \<Rightarrow> (Inl e, s)
               | Inr records \<Rightarrow>
                  if records = [] then (Inl (ValueError (''No records in version '' @ v)), s)
                  else
                   (case (case training_files s ''train.jsonl'' of
                            None \<Rightarrow> Inr []
                          | Some ls \<Rightarrow> read_jsonl ls) of
                      Inl e \<Rightarrow> (Inl e, s)
                    | Inr existing \<Rightarrow>
                        let s1 = (case training_files s ''train.jsonl'' of
                                    None \<Rightarrow> s
                                  | Some ls \<Rightarrow>
                                      s\<lparr>training_files :=
                                          (training_files s)(''train.jsonl.bak.'' @ v \<mapsto> ls)\<rparr>);
                            merged = existing @ records;
                            s2 = s1\<lparr>training_files :=
                                     (training_files s1)(''train.jsonl'' \<mapsto> map Json merged)\<rparr>
                        in (Inr (dir, ''train.jsonl''), s2)))))"

text \<open>A store as \<open>VersionManager(base_dir)\<close> finds it on a new, empty base directory.\<close>

definition fresh_store :: "string option \<Rightarrow> store" where
  "fresh_store tdir =
     load_manifest \<lparr>manifest = \<lparr>versions = [], current = None\<rparr>, manifest_file = None,
                    vdirs = Map.empty, training_data_dir = tdir, training_files = Map.empty\<rparr>"

section \<open>Deduplication (processors/dedup.py)\<close>

subsection \<open>Data model\<close>

record dedup_stats =
  total_input :: nat
  exact_dupes :: nat
  near_dupes :: nat
  unique :: nat

text \<open>
  Two libraries are used through their interfaces. The fingerprint
  \<open>xxhash.xxh64(content.encode()).hexdigest()\<close> is a function \<open>hash\<close> from texts to digests
  of some type \<open>'h\<close>. A \<open>MinHash\<close> is determined by the shingles passed to its \<open>update\<close>, so a
  signature is the list of those shingles; whether \<open>MinHashLSH.query\<close> on one signature
  returns the key stored with another is a relation \<open>collide\<close> on signatures, fixed by
  \<open>num_perm\<close> and \<open>lsh_threshold\<close>. Both are parameters of the functions below.
\<close>

type_synonym minhash = "string list"

record 'h dedup_index =
  num_perm :: nat
  shingle_size :: int
  exact_hashes :: "'h set"
  lsh :: "(string \<times> minhash) list"
  minhashes :: "string \<rightharpoonup> (minhash \<times> nat)"
  counter :: nat

definition new_index :: "nat \<Rightarrow> int \<Rightarrow> 'h dedup_index" where
  "new_index np k =
     \<lparr>num_perm = np, shingle_size = k, exact_hashes = {}, lsh = [],
      minhashes = Map.empty, counter = 0\<rparr>"

subsection \<open>Shingles and the two indices\<close>

text \<open>
  The slice \<open>text[a:b]\<close> for \<open>a \<ge> 0\<close>: a negative \<open>b\<close> counts from the end, and both bounds
  are clamped to the text.
\<close>

definition py_slice :: "string \<Rightarrow> int \<Rightarrow> int \<Rightarrow> string" where
  "py_slice s a b =
     (let n = int (length s);
          b' = (if b < 0 then max (b + n) 0 else min b n);
          a' = min a n
      in if a' < b' then take (nat (b' - a')) (drop (nat a') s) else [])"

text \<open>
  \<open>_make_minhash\<close>: one update per \<open>i\<close> in \<open>range(len(text) - shingle_size + 1)\<close> with
  \<open>text[i:i + shingle_size]\<close>; the range is empty when the text is shorter than a shingle.
\<close>

definition make_minhash :: "'h dedup_index \<Rightarrow> string \<Rightarrow> minhash" where
  "make_minhash idx text =
     map (\<lambda>i. py_slice text (int i) (int i + shingle_size idx))
       [0 ..< nat (int (length text) - shingle_size idx + 1)]"

text \<open>\<open>MinHashLSH.query\<close>: the keys whose stored signature collides with the queried one.\<close>

definition lsh_query ::
  "(minhash \<Rightarrow> minhash \<Rightarrow> bool) \<Rightarrow> (string \<times> minhash) list \<Rightarrow> minhash \<Rightarrow> string list"
where
  "lsh_query collide l mh = map fst (filter (\<lambda>p. collide (snd p) mh) l)"

text \<open>\<open>str(n)\<close> for a counter.\<close>

definition str_nat :: "nat \<Rightarrow> string" where
  "str_nat n = nat_digits n"

text \<open>
  \<open>_add_to_index(content, key=None)\<close>. \<open>MinHashLSH.insert\<close> raises \<open>ValueError\<close> for a key it
  already holds; the code catches it and leaves the near-duplicate index as it is, after the
  fingerprint has been added and the counter advanced.
\<close>

definition add_to_index ::
  "(string \<Rightarrow> 'h) \<Rightarrow> 'h dedup_index \<Rightarrow> string \<Rightarrow> string option \<Rightarrow> 'h dedup_index"
where
  "add_to_index hash idx content key =
     (let idx1 = idx\<lparr>exact_hashes := insert (hash content) (exact_hashes idx)\<rparr>;
          k = (case key of None \<Rightarrow> ''rec_'' @ str_nat (counter idx1) | Some k' \<Rightarrow> k');
          idx2 = (case key of None \<Rightarrow> idx1\<lparr>counter := counter idx1 + 1\<rparr> | Some k' \<Rightarrow> idx1);
          mh = make_minhash idx2 content
      in if k \<in> set (map fst (lsh idx2)) then idx2
         else idx2\<lparr>lsh := lsh idx2 @ [(k, mh)],
                   minhashes := (minhashes idx2)(k \<mapsto> (mh, length content))\<rparr>)"

definition is_duplicate ::
  "(string \<Rightarrow> 'h) \<Rightarrow> (minhash \<Rightarrow> minhash \<Rightarrow> bool) \<Rightarrow> 'h dedup_index \<Rightarrow> string \<Rightarrow>
   bool \<times> string"
where
  "is_duplicate hash collide idx content =
     (if hash content \<in> exact_hashes idx then (True, ''exact'')
      else if lsh_query collide (lsh idx) (make_minhash idx content) \<noteq> [] then (True, ''near'')
      else (False, ''''))"

subsection \<open>Batch deduplication\<close>

text \<open>
  The loop of \<open>deduplicate_batch\<close> over the remaining records, with the index, the list
  \<open>unique\<close> and the statistics as they stand. A content that is not falsy and not a string
  has no \<open>encode\<close>: \<open>is_duplicate\<close> raises \<open>AttributeError\<close>.
\<close>

fun dedup_loop ::
  "(string \<Rightarrow> 'h) \<Rightarrow> (minhash \<Rightarrow> minhash \<Rightarrow> bool) \<Rightarrow> string \<Rightarrow> 'h dedup_index \<Rightarrow>
   (string \<times> json) list list \<Rightarrow> dedup_stats \<Rightarrow> (string \<times> json) list list \<Rightarrow>
   (error + (string \<times> json) list list \<times> dedup_stats) \<times> 'h dedup_index"
where
  "dedup_loop hash collide content_key idx uniq stats [] = (Inr (uniq, stats), idx)"
| "dedup_loop hash collide content_key idx uniq stats (record # rest) =
     (let content = dict_get record content_key (JStr '''') in
      if \<not> truthy content then dedup_loop hash collide content_key idx uniq stats rest
      else
        (case content of
           JStr text \<Rightarrow>
             (let (is_dup, reason) = is_duplicate hash collide idx text in
              if is_dup \<and> reason = ''exact''
              then dedup_loop hash collide content_key idx uniq
                     (stats\<lparr>exact_dupes := exact_dupes stats + 1\<rparr>) rest
              else if is_dup \<and> reason = ''near''
              then dedup_loop hash collide content_key idx uniq
                     (stats\<lparr>near_dupes := near_dupes stats + 1\<rparr>) rest
              else dedup_loop hash collide content_key (add_to_index hash idx text None)
                     (uniq @ [record]) (stats\<lparr>unique := unique stats + 1\<rparr>) rest)
         | _ \<Rightarrow> (Inl AttributeError, idx)))"

definition deduplicate_batch ::
  "(string \<Rightarrow> 'h) \<Rightarrow> (minhash \<Rightarrow> minhash \<Rightarrow> bool) \<Rightarrow> 'h dedup_index \<Rightarrow>
   (string \<times> json) list list \<Rightarrow> string \<Rightarrow>
   (error + (string \<times> json) list list \<times> dedup_stats) \<times> 'h dedup_index"
where
  "deduplicate_batch hash collide idx records content_key =
     dedup_loop hash collide content_key idx []
       \<lparr>total_input = length records, exact_dupes = 0, near_dupes = 0, unique = 0\<rparr> records"

subsection \<open>Seeding from an existing corpus\<close>

text \<open>\<open>len(x)\<close>, \<open>x[2]\<close> (used where \<open>len(x) \<ge> 3\<close>) and \<open>x.get(key, default)\<close> on a decoded value.\<close>

fun py_len :: "json \<Rightarrow> error + nat" where
  "py_len (JStr s) = Inr (length s)"
| "py_len (JList xs) = Inr (length xs)"
| "py_len (JDict kvs) = Inr (length kvs)"
| "py_len _ = Inl TypeError"

fun py_item2 :: "json \<Rightarrow> error + json" where
  "py_item2 (JList xs) = Inr (xs ! 2)"
| "py_item2 (JStr s) = Inr (JStr [s ! 2])"
| "py_item2 (JDict kvs) = Inl KeyError"
| "py_item2 _ = Inl TypeError"

fun py_get :: "json \<Rightarrow> string \<Rightarrow> json \<Rightarrow> error + json" where
  "py_get (JDict kvs) k dflt = Inr (dict_get kvs k dflt)"
| "py_get _ k dflt = Inl AttributeError"

text \<open>
  The body of the line loop of \<open>load_existing\<close> for one decoded record, from
  \<open>record.get("messages", [])\<close> on; it returns the new value of \<open>loaded\<close>.
\<close>

definition index_existing ::
  "(string \<Rightarrow> 'h) \<Rightarrow> 'h dedup_index \<Rightarrow> nat \<Rightarrow> json \<Rightarrow> (error + nat) \<times> 'h dedup_index"
where
  "index_existing hash idx loaded record =
     (case py_get record ''messages'' (JList []) of
        Inl e \<Rightarrow> (Inl e, idx)
      | Inr messages \<Rightarrow>
         (case py_len messages of
            Inl e \<Rightarrow> (Inl e, idx)
          | Inr n \<Rightarrow>
             if n \<ge> 3 then
               (case py_item2 messages of
                  Inl e \<Rightarrow> (Inl e, idx)
                | Inr m \<Rightarrow>
                   (case py_get m ''content'' (JStr '''') of
                      Inl e \<Rightarrow> (Inl e, idx)
                    | Inr (JStr content) \<Rightarrow>
                        (Inr (loaded + 1),
                         add_to_index hash idx content (Some (''existing_'' @ str_nat loaded)))
                    | Inr _ \<Rightarrow> (Inl AttributeError, idx)))
             else (Inr loaded, idx)))"

text \<open>
  The line loop of \<open>load_existing\<close>: \<open>record = json.loads(line)\<close> on every line as it is
  read, with no \<open>strip\<close>, no test for an empty line and no handler, so a blank or malformed
  line raises \<open>JSONDecodeError\<close> out of the loop.
\<close>

fun load_lines ::
  "(string \<Rightarrow> 'h) \<Rightarrow> 'h dedup_index \<Rightarrow> nat \<Rightarrow> jsonl \<Rightarrow> (error + nat) \<times> 'h dedup_index"
where
  "load_lines hash idx loaded [] = (Inr loaded, idx)"
| "load_lines hash idx loaded (Json record # ls) =
     (case index_existing hash idx loaded record of
        (Inl e, idx') \<Rightarrow> (Inl e, idx')
      | (Inr n, idx') \<Rightarrow> load_lines hash idx' n ls)"
| "load_lines hash idx loaded (_ # ls) = (Inl JSONDecodeError, idx)"

text \<open>
  \<open>load_existing(training_data_path)\<close> on the files of that directory, \<open>train.jsonl\<close> then
  \<open>validation.jsonl\<close>, each skipped when absent. The result is the count \<open>loaded\<close> that the
  call prints.
\<close>

definition load_existing ::
  "(string \<Rightarrow> 'h) \<Rightarrow> 'h dedup_index \<Rightarrow> (string \<rightharpoonup> jsonl) \<Rightarrow> (error + nat) \<times> 'h dedup_index"
where
  "load_existing hash idx files =
     (case (case files ''train.jsonl'' of
              None \<Rightarrow> (Inr 0, idx)
            | Some ls \<Rightarrow> load_lines hash idx 0 ls) of
        (Inl e, idx1) \<Rightarrow> (Inl e, idx1)
      | (Inr n, idx1) \<Rightarrow>
          (case files ''validation.jsonl'' of
             None \<Rightarrow> (Inr n, idx1)
           | Some ls \<Rightarrow> load_lines hash idx1 n ls))"

section \<open>Quality filter (processors/quality_filter.py)\<close>

text \<open>
  Texts are ASCII strings. The two ratio thresholds are floats in the source; the model
  compares exact rationals, which agrees with the float comparison for the default
  thresholds and texts within the default length bound.
\<close>

record filter_config =
  min_content_length :: int
  min_answer_length :: int
  max_answer_length :: int
  max_table_ratio :: rat
  min_alpha_ratio :: rat
  max_image_artifacts :: int

text \<open>The defaults of the dataclass \<open>FilterConfig\<close>.\<close>

definition default_filter_config :: filter_config where
  "default_filter_config =
     \<lparr>min_content_length = 100, min_answer_length = 200, max_answer_length = 8000,
      max_table_ratio = 3 / 10, min_alpha_ratio = 3 / 10, max_image_artifacts = 2\<rparr>"

text \<open>\<open>str.count(pat)\<close> for a non-empty \<open>pat\<close>: occurrences from the left, not overlapping.\<close>

fun count_sub :: "string \<Rightarrow> string \<Rightarrow> nat" where
  "count_sub pat [] = 0"
| "count_sub pat (c # cs) =
     (if pat \<noteq> [] \<and> take (length pat) (c # cs) = pat
      then 1 + count_sub pat (drop (length pat - 1) cs)
      else count_sub pat cs)"

definition is_alpha :: "char \<Rightarrow> bool" where
  "is_alpha c = (let n = (of_char c :: nat) in (65 \<le> n \<and> n \<le> 90) \<or> (97 \<le> n \<and> n \<le> 122))"

text \<open>
  \<open>re.match(r"^\s*[\d\.]+\s*$", t)\<close>: whitespace, then at least one digit or dot, then
  whitespace up to the end. The classes are disjoint, so the greedy reading decides.
\<close>

definition section_numbers_match :: "string \<Rightarrow> bool" where
  "section_numbers_match t =
     (let a = dropWhile is_space t;
          b = dropWhile (\<lambda>c. is_digit c \<or> c = CHR ''.'') a;
          c = dropWhile is_space b
      in a \<noteq> b \<and> c = [])"

text \<open>\<open>re.match(r"^[\s\|_\-=]+$", t)\<close>: a non-empty text of these characters only.\<close>

definition table_borders_match :: "string \<Rightarrow> bool" where
  "table_borders_match t =
     (t \<noteq> [] \<and>
      list_all (\<lambda>c. is_space c \<or> c = CHR ''|'' \<or> c = CHR ''_'' \<or> c = CHR ''-'' \<or> c = CHR ''='') t)"

text \<open>
  \<open>filter_record(text, config=None, min_length=None)\<close>. \<open>min_length or
  config.min_content_length\<close> takes \<open>min_length\<close> unless it is \<open>None\<close> or 0.
\<close>

definition filter_record :: "string \<Rightarrow> filter_config option \<Rightarrow> int option \<Rightarrow> bool \<times> string" where
  "filter_record text config_arg min_length =
     (let config = (case config_arg of None \<Rightarrow> default_filter_config | Some c \<Rightarrow> c);
          length_threshold =
            (case min_length of
               None \<Rightarrow> min_content_length config
             | Some n \<Rightarrow> if n = 0 then min_content_length config else n);
          len = int (length text);
          table_chars = count_sub ''|'' text + count_sub ''---'' text * 3
                          + count_sub ''==='' text * 3;
          alpha_count = length (filter is_alpha text)
      in if len < length_threshold then (False, ''too_short'')
         else if max_answer_length config \<noteq> 0 \<and> len > max_answer_length config
           then (False, ''too_long'')
         else if section_numbers_match (strip text) then (False, ''section_numbers_only'')
         else if table_borders_match (strip text) then (False, ''table_borders_only'')
         else if len > 0 \<and> (of_nat table_chars / of_int len :: rat) > max_table_ratio config
           then (False, ''table_heavy'')
         else if len > 0 \<and> (of_nat alpha_count / of_int len :: rat) < min_alpha_ratio config
           then (False, ''low_alpha'')
         else if int (count_sub ''<!-- image -->'' text) > max_image_artifacts config
           then (False, ''image_artifacts'')
         else (True, ''''))"

section \<open>Validation (pipeline/validator.py)\<close>

record validation_result =
  passed :: bool
  total_records :: nat
  format_errors :: "string list"
  quality_warnings :: "string list"
  comparison_notes :: "string list"
  stats :: "(string \<times> json) list"

text \<open>The configuration read by \<open>DataValidator.__init__\<close>, with its defaults.\<close>

record validator =
  min_records :: int
  max_quality_drop :: int
  min_avg_length :: int
  max_avg_length :: int
  required_system_prompt_substring :: string

definition default_validator :: validator where
  "default_validator =
     \<lparr>min_records = 10, max_quality_drop = 5, min_avg_length = 200, max_avg_length = 5000,
      required_system_prompt_substring = ''CMMC''\<rparr>"

definition new_result :: "nat \<Rightarrow> validation_result" where
  "new_result n =
     \<lparr>passed = True, total_records = n, format_errors = [], quality_warnings = [],
      comparison_notes = [], stats = []\<rparr>"

text \<open>\<open>d[key] = value\<close> on a dict: the value is replaced in place or the item appended.\<close>

fun dict_set :: "(string \<times> json) list \<Rightarrow> string \<Rightarrow> json \<Rightarrow> (string \<times> json) list" where
  "dict_set [] k v = [(k, v)]"
| "dict_set (p # ps) k v = (if fst p = k then (k, v) # ps else p # dict_set ps k v)"

definition str_int :: "int \<Rightarrow> string" where
  "str_int n = (if n < 0 then CHR ''-'' # nat_digits (nat (- n)) else nat_digits (nat n))"

text \<open>\<open>round(x)\<close> and the format \<open>{x:.0f}\<close>: to the nearest integer, a tie to the even one.\<close>

definition round_half_even :: "rat \<Rightarrow> int" where
  "round_half_even q =
     (let f = \<lfloor>q\<rfloor>; d = q - of_int f
      in if d < 1 / 2 then f else if d > 1 / 2 then f + 1 else if even f then f else f + 1)"

fun py_min :: "int list \<Rightarrow> int" where
  "py_min [] = 0"
| "py_min (x # xs) = fold min xs x"

text \<open>
  The first loop of \<open>_validate_quality\<close>: the length of the third message's content for
  every record with at least three messages.
\<close>

fun answer_lengths :: "(string \<times> json) list list \<Rightarrow> error + int list" where
  "answer_lengths [] = Inr []"
| "answer_lengths (record # rest) =
     (case py_len (dict_get record ''messages'' (JList [])) of
        Inl e \<Rightarrow> Inl e
      | Inr n \<Rightarrow>
         if n \<ge> 3 then
           (case py_item2 (dict_get record ''messages'' (JList [])) of
              Inl e \<Rightarrow> Inl e
            | Inr m \<Rightarrow>
               (case py_get m ''content'' (JStr '''') of
                  Inl e \<Rightarrow> Inl e
                | Inr content \<Rightarrow>
                   (case py_len content of
                      Inl e \<Rightarrow> Inl e
                    | Inr k \<Rightarrow>
                       (case answer_lengths rest of
                          Inl e \<Rightarrow> Inl e
                        | Inr ls \<Rightarrow> Inr (int k # ls)))))
         else answer_lengths rest)"

text \<open>
  A Python \<open>set\<close> of decoded values, as the list of its members. Lists and dicts are not
  hashable; \<open>True\<close> and \<open>1\<close>, \<open>False\<close> and \<open>0\<close> are the same member.
\<close>

fun hashable :: "json \<Rightarrow> bool" where
  "hashable (JList xs) = False"
| "hashable (JDict kvs) = False"
| "hashable _ = True"

fun set_key :: "json \<Rightarrow> json" where
  "set_key (JBool b) = JInt (if b then 1 else 0)"
| "set_key v = v"

definition set_add :: "json list \<Rightarrow> json \<Rightarrow> json list" where
  "set_add S v = (if set_key v \<in> set_key ` set S then S else S @ [v])"

text \<open>The second loop: \<open>sources.add(record.get("source", "unknown"))\<close>.\<close>

fun collect_sources :: "json list \<Rightarrow> (string \<times> json) list list \<Rightarrow> error + json list" where
  "collect_sources S [] = Inr S"
| "collect_sources S (record # rest) =
     (let v = dict_get record ''source'' (JStr ''unknown'')
      in if hashable v then collect_sources (set_add S v) rest else Inl TypeError)"

text \<open>
  \<open>sorted\<close> of a set: strings are ordered among themselves, numbers and booleans among
  themselves; any other set of two or more members has a pair that \<open><\<close> rejects with
  \<open>TypeError\<close>.
\<close>

fun is_jstr :: "json \<Rightarrow> bool" where
  "is_jstr (JStr s) = True"
| "is_jstr _ = False"

fun is_jnum :: "json \<Rightarrow> bool" where
  "is_jnum (JInt n) = True"
| "is_jnum (JBool b) = True"
| "is_jnum _ = False"

fun str_of :: "json \<Rightarrow> string" where
  "str_of (JStr s) = s"
| "str_of _ = []"

fun num_of :: "json \<Rightarrow> int" where
  "num_of (JInt n) = n"
| "num_of (JBool b) = (if b then 1 else 0)"
| "num_of _ = 0"

definition py_sorted :: "json list \<Rightarrow> error + json list" where
  "py_sorted l =
     (if length l \<le> 1 then Inr l
      else if list_all is_jstr l then Inr (map JStr (sort (map str_of l)))
      else if list_all is_jnum l then Inr (sort_key num_of l)
      else Inl TypeError)"

text \<open>
  The block under \<open>if answer_lengths:\<close> of \<open>_validate_quality\<close>: mean, minimum and maximum
  go into \<open>stats\<close>, and a mean outside the configured band adds a warning.
\<close>

definition length_stats :: "validator \<Rightarrow> int list \<Rightarrow> validation_result \<Rightarrow> validation_result" where
  "length_stats self lens result =
     (if lens \<noteq> [] then
        let avg_len = (of_int (sum_list lens) / of_nat (length lens) :: rat);
            st1 = dict_set (stats result) ''avg_answer_length'' (JInt (round_half_even avg_len));
            st2 = dict_set st1 ''min_answer_length'' (JInt (py_min lens));
            st3 = dict_set st2 ''max_answer_length'' (JInt (py_max lens));
            w1 = (if avg_len < of_int (min_avg_length self)
                  then [''Average answer length ('' @ str_int (round_half_even avg_len) @
                        '') below threshold ('' @ str_int (min_avg_length self) @ '')'']
                  else []);
            w2 = (if avg_len > of_int (max_avg_length self)
                  then [''Average answer length ('' @ str_int (round_half_even avg_len) @
                        '') above threshold ('' @ str_int (max_avg_length self) @ '')'']
                  else [])
        in result\<lparr>quality_warnings := quality_warnings result @ w1 @ w2, stats := st3\<rparr>
      else result)"

text \<open>
  \<open>_validate_quality(records, result)\<close>. The result object is updated in place, so the
  function returns it as the call leaves it, also when an exception ends the call.
\<close>

definition validate_quality ::
  "validator \<Rightarrow> (string \<times> json) list list \<Rightarrow> validation_result \<Rightarrow>
   (error + unit) \<times> validation_result"
where
  "validate_quality self records result =
     (if int (length records) < min_records self
      then (Inr (),
            result\<lparr>format_errors := format_errors result @
              [''Too few records: '' @ str_int (int (length records)) @ '' < minimum '' @
               str_int (min_records self)]\<rparr>)
      else
        (case answer_lengths records of
           Inl e \<Rightarrow> (Inl e, result)
         | Inr lens \<Rightarrow>
            let r1 = length_stats self lens result
            in (case collect_sources [] records of
                  Inl e \<Rightarrow> (Inl e, r1)
                | Inr srcs \<Rightarrow>
                   let r2 = r1\<lparr>stats := dict_set (stats r1) ''unique_sources''
                                          (JInt (int (length srcs)))\<rparr>
                   in (case py_sorted srcs of
                         Inl e \<Rightarrow> (Inl e, r2)
                       | Inr sorted_srcs \<Rightarrow>
                           (Inr (), r2\<lparr>stats := dict_set (stats r2) ''source_list''
                                                  (JList (take 20 sorted_srcs))\<rparr>)))))"

section \<open>Specification vocabulary and example states\<close>

text \<open>
  The manifest invariant of the data model: \<open>current\<close> is null or the \<open>version\<close> of an entry
  of \<open>versions\<close>.
\<close>

definition manifest_inv :: "manifest \<Rightarrow> bool" where
  "manifest_inv m =
     (case current m of None \<Rightarrow> True | Some c \<Rightarrow> c \<in> set (map version (versions m)))"

text \<open>
  A client session without deletions: a sequence of \<open>create_snapshot\<close> and \<open>rollback\<close> calls
  on one manager. \<open>run_ops\<close> returns what the \<open>create_snapshot\<close> calls returned, in order,
  and the final store.
\<close>

datatype store_op =
    Create "json list" string "string list option" string
  | Rollback string

fun run_ops :: "store \<Rightarrow> store_op list \<Rightarrow> (error + string) list \<times> store" where
  "run_ops s [] = ([], s)"
| "run_ops s (Create records descr srcs now # ops) =
     (case create_snapshot s records descr srcs now of
        (res, s1) \<Rightarrow> (case run_ops s1 ops of (rs, s2) \<Rightarrow> (res # rs, s2)))"
| "run_ops s (Rollback target # ops) = run_ops (snd (rollback s target)) ops"

fun creations :: "store_op list \<Rightarrow> nat" where
  "creations [] = 0"
| "creations (Create records descr srcs now # ops) = Suc (creations ops)"
| "creations (Rollback target # ops) = creations ops"

text \<open>Sample records and stores for the concrete instances below.\<close>

definition sample_record :: "string \<Rightarrow> json" where
  "sample_record a =
     JDict [(''messages'',
             JList [JDict [(''role'', JStr ''system''), (''content'', JStr ''You are a CMMC expert.'')],
                    JDict [(''role'', JStr ''user''), (''content'', JStr ''Question?'')],
                    JDict [(''role'', JStr ''assistant''), (''content'', JStr a)]]),
            (''source'', JStr ''test'')]"

text \<open>The two manifest entries of the sample stores.\<close>

definition info1 :: version_info where
  "info1 =
     \<lparr>version = ''v001'', created_at = ''2024-01-01T00:00:00+00:00'', description = ''first'',
      record_count = 1, sources = [], parent_version = None\<rparr>"

definition info2 :: version_info where
  "info2 =
     \<lparr>version = ''v002'', created_at = ''2024-01-02T00:00:00+00:00'', description = ''second'',
      record_count = 2, sources = [''ecfr''], parent_version = Some ''v001''\<rparr>"

text \<open>A new store after \<open>create_snapshot\<close> of one record: \<open>v001\<close> is current.\<close>

definition store_v1 :: store where
  "store_v1 =
     snd (create_snapshot (fresh_store (Some ''training'')) [sample_record ''one'']
            ''first'' None ''2024-01-01T00:00:00+00:00'')"

text \<open>After a second snapshot of two records: \<open>v001\<close>, \<open>v002\<close>, and \<open>v002\<close> is current.\<close>

definition store_v2 :: store where
  "store_v2 =
     snd (create_snapshot store_v1 [sample_record ''two'', sample_record ''three'']
            ''second'' (Some [''ecfr'']) ''2024-01-02T00:00:00+00:00'')"

text \<open>
  The directory \<open>versions/v001\<close> with its record file on disk and no manifest: what an
  interrupted \<open>create_snapshot\<close> leaves, as a new manager then loads it.
\<close>

definition orphan_store :: store where
  "orphan_store =
     load_manifest (store_v1\<lparr>manifest_file := None\<rparr>)"

text \<open>\<open>store_v2\<close> with a line that is not JSON at the end of the record file of \<open>v001\<close>.\<close>

definition corrupt_store :: store where
  "corrupt_store =
     store_v2\<lparr>vdirs := (vdirs store_v2)(''v001'' \<mapsto>
        \<lparr>records_file = Some [Json (sample_record ''one''), Malformed],
         info_file = Some info1\<rparr>)\<rparr>"

text \<open>\<open>store_v2\<close> with a training file of one record and one blank line.\<close>

definition training_store :: store where
  "training_store =
     store_v2\<lparr>training_files := [''train.jsonl'' \<mapsto> [Json (sample_record ''old''), Blank]]\<rparr>"

text \<open>A session of two snapshots with a rollback between them.\<close>

definition session3 :: "store_op list" where
  "session3 = [Create [sample_record ''one''] ''a'' None ''t1'', Rollback ''v001'',
               Create [] ''b'' None ''t2'']"

text \<open>Sample records and corpus files for the deduplication index.\<close>

definition r_abc :: "(string \<times> json) list" where
  "r_abc = [(''text'', JStr ''abc'')]"

definition r_abc2 :: "(string \<times> json) list" where
  "r_abc2 = [(''text'', JStr ''abc''), (''id'', JInt 2)]"

definition r_xyz :: "(string \<times> json) list" where
  "r_xyz = [(''text'', JStr ''xyz'')]"

definition r_empty :: "(string \<times> json) list" where
  "r_empty = [(''text'', JStr '''')]"

definition r_no_text :: "(string \<times> json) list" where
  "r_no_text = [(''title'', JStr ''untitled'')]"

text \<open>A corpus whose \<open>train.jsonl\<close> has a line that is not JSON between two records.\<close>

definition broken_corpus :: "string \<rightharpoonup> jsonl" where
  "broken_corpus =
     [''train.jsonl'' \<mapsto>
        [Json (sample_record ''hello world''), Malformed, Json (sample_record ''good morning'')]]"

text \<open>Sample chat records and batches for the validator.\<close>

definition chat_record :: "string \<Rightarrow> string \<Rightarrow> (string \<times> json) list" where
  "chat_record answer src =
     [(''messages'',
       JList [JDict [(''role'', JStr ''system''), (''content'', JStr ''You are a CMMC expert.'')],
              JDict [(''role'', JStr ''user''), (''content'', JStr ''What is CMMC?'')],
              JDict [(''role'', JStr ''assistant''), (''content'', JStr answer)]]),
      (''source'', JStr src)]"

text \<open>Two records from two sources: fewer than the default minimum of 10.\<close>

definition small_batch :: "(string \<times> json) list list" where
  "small_batch = [chat_record ''first answer'' ''nist'', chat_record ''second answer'' ''ecfr'']"

text \<open>Ten records from two sources.\<close>

definition full_batch :: "(string \<times> json) list list" where
  "full_batch =
     replicate 9 (chat_record ''an answer'' ''nist'') @ [chat_record ''another answer'' ''ecfr'']"

section \<open>Version ids: parsing and formatting\<close>

lemma digit_char_is_digit: "d < 10 \<Longrightarrow> is_digit (char_of (48 + d :: nat))"
  by (simp add: is_digit_def Let_def)

lemma digit_val_char: "d < 10 \<Longrightarrow> digit_val (char_of (48 + d :: nat)) = int d"
  by (simp add: digit_val_def)

lemma nat_digits_all_digits: "list_all is_digit (nat_digits n)"
  by (induction n rule: nat_digits.induct) (subst nat_digits.simps, simp add: digit_char_is_digit)

lemma nat_digits_nonempty: "nat_digits n \<noteq> []"
  by (subst nat_digits.simps) simp

lemma nat_digits_value:
  "foldl (\<lambda>a c. 10 * a + digit_val c) 0 (nat_digits n) = int n"
proof (induction n rule: nat_digits.induct)
  case (1 n)
  show ?case
  proof (cases "n < 10")
    case True
    then show ?thesis by (subst nat_digits.simps) (simp add: digit_val_char)
  next
    case False
    have "10 * int (n div 10) + int (n mod 10) = int n" by presburger
    with False 1 show ?thesis by (subst nat_digits.simps) (simp add: digit_val_char)
  qed
qed

lemma is_digit_not_int_space: "is_digit c \<Longrightarrow> \<not> is_int_space c"
  by (auto simp: is_digit_def is_int_space_def Let_def)

lemma is_digit_not_special:
  "is_digit c \<Longrightarrow> c \<noteq> CHR ''v'' \<and> c \<noteq> CHR ''-'' \<and> c \<noteq> CHR ''+'' \<and> c \<noteq> CHR ''_''"
  by (auto simp: is_digit_def Let_def)

lemma digits_ok_all_digits: "ds \<noteq> [] \<Longrightarrow> list_all is_digit ds \<Longrightarrow> digits_ok ds"
  by (induction ds rule: digits_ok.induct) (auto dest: is_digit_not_special)

lemma int_strip_digits: "ds \<noteq> [] \<Longrightarrow> list_all is_digit ds \<Longrightarrow> int_strip ds = ds"
proof -
  assume ne: "ds \<noteq> []" and all: "list_all is_digit ds"
  from ne all have "\<not> is_int_space (hd ds)" by (cases ds) (auto dest: is_digit_not_int_space)
  with ne have a: "dropWhile is_int_space ds = ds" by (cases ds) auto
  from ne all have "\<not> is_int_space (last ds)"
    by (metis is_digit_not_int_space last_in_set list_all_iff)
  with ne have "dropWhile is_int_space (rev ds) = rev ds"
    by (cases "rev ds") (auto simp: last_rev hd_rev)
  with a show ?thesis by (simp add: int_strip_def)
qed

lemma py_int_all_digits:
  assumes "ds \<noteq> []" "list_all is_digit ds"
  shows "py_int ds = Some (foldl (\<lambda>a c. 10 * a + digit_val c) 0 ds)"
proof -
  obtain c cs where ds: "ds = c # cs" using assms(1) by (cases ds) auto
  with assms(2) have c: "is_digit c" by simp
  have f: "filter is_digit ds = ds" using assms(2) by (simp add: list_all_iff)
  have s: "int_strip ds = c # cs" using int_strip_digits[OF assms] ds by simp
  have ok: "digits_ok (c # cs)" using digits_ok_all_digits[OF assms] ds by simp
  have v: "digits_value (c # cs) = foldl (\<lambda>a c. 10 * a + digit_val c) 0 ds"
    using f ds by (simp add: digits_value_def)
  show ?thesis
    unfolding py_int_def s using is_digit_not_special[OF c] ok v by simp
qed

lemma py_int_digits:
  assumes "ds \<noteq> []" "list_all is_digit ds"
  shows "py_int (lstrip_v (CHR ''v'' # ds)) = Some (foldl (\<lambda>a c. 10 * a + digit_val c) 0 ds)"
proof -
  obtain c cs where ds: "ds = c # cs" using assms(1) by (cases ds) auto
  with assms(2) have c: "is_digit c" by simp
  have l: "lstrip_v (CHR ''v'' # ds) = ds"
    using c ds is_digit_not_special by (auto simp: lstrip_v_def)
  show ?thesis unfolding l by (rule py_int_all_digits[OF assms])
qed

lemma foldl_zeros:
  "foldl (\<lambda>a c. 10 * a + digit_val c) 0 (replicate k (CHR ''0'') @ ds)
   = foldl (\<lambda>a c. 10 * a + digit_val c) 0 ds"
  by (induction k) (simp_all add: digit_val_def)

lemma fmt_roundtrip: "py_int (lstrip_v (CHR ''v'' # fmt_03d (int k))) = Some (int k)"
proof -
  have z: "is_digit (CHR ''0'')" by (simp add: is_digit_def)
  have a: "list_all is_digit (zero_pad 3 (nat_digits k))"
    using nat_digits_all_digits[of k] z by (auto simp: zero_pad_def list_all_iff)
  have n: "zero_pad 3 (nat_digits k) \<noteq> []"
    using nat_digits_nonempty by (simp add: zero_pad_def)
  have v: "foldl (\<lambda>a c. 10 * a + digit_val c) 0 (zero_pad 3 (nat_digits k)) = int k"
    unfolding zero_pad_def by (simp only: foldl_zeros nat_digits_value)
  have f: "fmt_03d (int k) = zero_pad 3 (nat_digits k)" by (simp add: fmt_03d_def)
  show ?thesis unfolding f using py_int_digits[OF n a] v by simp
qed

lemma version_numbers_fresh:
  "version_numbers (map (\<lambda>k. CHR ''v'' # fmt_03d (int k)) ks) = Some (map int ks)"
  by (induction ks) (simp_all add: fmt_roundtrip)

lemma py_max_Max:
  assumes "xs \<noteq> []"
  shows "py_max xs = Max (set xs)"
proof (cases xs)
  case Nil
  with assms show ?thesis by simp
next
  case (Cons a list)
  have "Max (set (a # list)) = fold max list a" by (rule Max.set_eq_fold)
  with Cons show ?thesis by simp
qed

lemma py_max_upto: "py_max (map int [1 ..< Suc (Suc n)]) = int (Suc n)"
proof -
  have "Max (set (map int [1 ..< Suc (Suc n)])) = int (Suc n)"
    by (rule Max_eqI) auto
  then show ?thesis by (simp add: py_max_Max del: upt_Suc)
qed

section \<open>Properties of the version store\<close>

text \<open>The sample stores, computed.\<close>

lemma store_v1_eq:
  "store_v1 =
     \<lparr>manifest = \<lparr>versions = [info1], current = Some ''v001''\<rparr>,
      manifest_file = Some \<lparr>versions = [info1], current = Some ''v001''\<rparr>,
      vdirs = [''v001'' \<mapsto> \<lparr>records_file = Some [Json (sample_record ''one'')],
                                info_file = Some info1\<rparr>],
      training_data_dir = Some ''training'', training_files = Map.empty\<rparr>"
  by (simp add: store_v1_def create_snapshot_def next_version_def fresh_store_def
        load_manifest_def save_manifest_def Let_def info1_def)

lemma nv1: "next_version \<lparr>versions = [info1], current = Some ''v001''\<rparr> = Inr ''v002''"
  by code_simp

lemma store_v2_eq:
  "store_v2 =
     \<lparr>manifest = \<lparr>versions = [info1, info2], current = Some ''v002''\<rparr>,
      manifest_file = Some \<lparr>versions = [info1, info2], current = Some ''v002''\<rparr>,
      vdirs = [''v001'' \<mapsto> \<lparr>records_file = Some [Json (sample_record ''one'')],
                                info_file = Some info1\<rparr>,
               ''v002'' \<mapsto> \<lparr>records_file = Some [Json (sample_record ''two''),
                                                     Json (sample_record ''three'')],
                                info_file = Some info2\<rparr>],
      training_data_dir = Some ''training'', training_files = Map.empty\<rparr>"
  unfolding store_v2_def store_v1_eq
  by (simp add: create_snapshot_def nv1 save_manifest_def Let_def info2_def numeral_2_eq_2)

lemma store_v1_current: "current (manifest store_v1) = Some ''v001''"
  by (simp add: store_v1_eq)

text \<open>
  Claim C4. Calling \<open>delete_version\<close> with the id that the manifest holds as \<open>current\<close>
  raises \<open>ValueError\<close> (the code's error for an invalid operation) and returns the store
  exactly as it was: no directory is removed and neither the in-memory manifest nor the
  manifest file changes.
\<close>

theorem delete_current_rejected:
  assumes "current (manifest s) = Some v"
  shows "delete_version s v =
           (Inl (ValueError ''Cannot delete the current version. Rollback first.''), s)"
  using assms by (simp add: delete_version_def)

text \<open>The claim at \<open>store_v1\<close>, whose current version is \<open>v001\<close>.\<close>

theorem delete_current_rejected_witness:
  "current (manifest store_v1) = Some ''v001'' \<and>
   delete_version store_v1 ''v001'' =
     (Inl (ValueError ''Cannot delete the current version. Rollback first.''), store_v1)"
  using delete_current_rejected [OF store_v1_current] store_v1_current by simp

lemma next_version_empty: "versions m = [] \<Longrightarrow> next_version m = Inr ''v001''"
  by (simp add: next_version_def)

lemma version_numbers_length:
  "version_numbers vs = Some ns \<Longrightarrow> length ns = length vs"
  by (induction vs arbitrary: ns) (auto split: option.splits)

lemma next_version_max:
  assumes "versions m \<noteq> []" "version_numbers (map version (versions m)) = Some nums"
  shows "next_version m = Inr (CHR ''v'' # fmt_03d (Max (set nums) + 1))"
proof -
  have "nums \<noteq> []" using version_numbers_length[OF assms(2)] assms(1) by auto
  then have "py_max nums = Max (set nums)" by (rule py_max_Max)
  then show ?thesis using assms by (simp add: next_version_def)
qed

lemma fmt_one: "fmt_03d 1 = ''001''"
  by code_simp

lemma next_version_fresh:
  assumes "map version (versions m) = map (\<lambda>k. CHR ''v'' # fmt_03d (int k)) [1 ..< Suc n]"
  shows "next_version m = Inr (CHR ''v'' # fmt_03d (int (Suc n)))"
proof (cases n)
  case 0
  with assms have "versions m = []" by simp
  then show ?thesis using 0 by (simp add: next_version_def fmt_one)
next
  case (Suc k)
  have ne: "map version (versions m) \<noteq> []" using assms Suc by (simp add: upt_rec[of 1])
  have vn: "version_numbers (map version (versions m)) = Some (map int [1 ..< Suc n])"
    unfolding assms by (rule version_numbers_fresh)
  have "py_max (map int [1 ..< Suc n]) = int n" using py_max_upto[of k] Suc by simp
  then show ?thesis using ne vn by (simp add: next_version_def Let_def add.commute del: upt_Suc)
qed

lemma create_snapshot_result: "fst (create_snapshot s records descr srcs now) = next_version (manifest s)"
  by (simp add: create_snapshot_def Let_def split: sum.splits)

lemma create_snapshot_versions:
  "next_version (manifest s) = Inr v \<Longrightarrow>
   map version (versions (manifest (snd (create_snapshot s records descr srcs now))))
     = map version (versions (manifest s)) @ [v]"
  by (simp add: create_snapshot_def Let_def save_manifest_def)

lemma create_snapshot_current:
  "fst (create_snapshot s records descr srcs now) = Inr v \<Longrightarrow>
   current (manifest (snd (create_snapshot s records descr srcs now))) = Some v"
  by (auto simp: create_snapshot_def Let_def save_manifest_def split: sum.splits)

lemma rollback_versions: "versions (manifest (snd (rollback s t))) = versions (manifest s)"
  by (simp add: rollback_def save_manifest_def split: sum.splits)

lemma rollback_current:
  "fst (rollback s t) = Inr recs \<Longrightarrow> current (manifest (snd (rollback s t))) = Some t"
  by (auto simp: rollback_def save_manifest_def split: sum.splits if_splits)

lemma run_ops_ids:
  "map version (versions (manifest s)) = map (\<lambda>k. CHR ''v'' # fmt_03d (int k)) [1 ..< Suc n] \<Longrightarrow>
   fst (run_ops s ops) = map (\<lambda>k. Inr (CHR ''v'' # fmt_03d (int k))) [Suc n ..< Suc (n + creations ops)]"
proof (induction ops arbitrary: s n)
  case Nil
  then show ?case by simp
next
  case (Cons op ops)
  show ?case
  proof (cases op)
    case (Create records descr srcs now)
    let ?v = "CHR ''v'' # fmt_03d (int (Suc n))"
    let ?s1 = "snd (create_snapshot s records descr srcs now)"
    have nv: "next_version (manifest s) = Inr ?v" by (rule next_version_fresh[OF Cons.prems])
    have res: "fst (create_snapshot s records descr srcs now) = Inr ?v"
      using nv by (simp add: create_snapshot_result)
    have "map version (versions (manifest ?s1))
          = map (\<lambda>k. CHR ''v'' # fmt_03d (int k)) [1 ..< Suc (Suc n)]"
      using create_snapshot_versions[OF nv] Cons.prems by simp
    from Cons.IH[OF this]
    have ih: "fst (run_ops ?s1 ops)
              = map (\<lambda>k. Inr (CHR ''v'' # fmt_03d (int k))) [Suc (Suc n) ..< Suc (Suc n + creations ops)]" .
    have "[Suc n ..< Suc (n + creations (op # ops))]
          = Suc n # [Suc (Suc n) ..< Suc (Suc n + creations ops)]"
      using Create by (simp add: upt_rec[of "Suc n"] del: upt_Suc)
    then show ?thesis
      using Create res ih by (simp add: case_prod_unfold del: upt_Suc)
  next
    case (Rollback target)
    have "map version (versions (manifest (snd (rollback s target))))
          = map (\<lambda>k. CHR ''v'' # fmt_03d (int k)) [1 ..< Suc n]"
      using Cons.prems by (simp add: rollback_versions)
    from Cons.IH[OF this] show ?thesis using Rollback by simp
  qed
qed

lemma read_jsonl_written: "read_jsonl (map Json rs) = Inr rs"
  by (induction rs) simp_all

lemma vn12: "version_numbers [''v001'', ''v002''] = Some [1, 2]"
  by code_simp

text \<open>
  Claim C8. The next version id is a function of the manifest alone: \<open>v001\<close> for an empty
  version list, otherwise \<open>v\<close> followed by the greatest numeric suffix plus one in the
  format \<open>03d\<close>; \<open>create_snapshot\<close> returns exactly that id. In a session of
  \<open>create_snapshot\<close> and \<open>rollback\<close> calls on a store with an empty version list, every
  \<open>create_snapshot\<close> succeeds and the N-th one returns \<open>v\<close> followed by N in the format
  \<open>03d\<close>. After a \<open>create_snapshot\<close> or \<open>rollback\<close> that returns, \<open>current\<close> is the id created
  or rolled back to.
\<close>

theorem version_allocation:
  "(versions m0 = [] \<longrightarrow> next_version m0 = Inr ''v001'')
   \<and> (versions m1 \<noteq> [] \<and> version_numbers (map version (versions m1)) = Some nums \<longrightarrow>
        next_version m1 = Inr (CHR ''v'' # fmt_03d (Max (set nums) + 1)))
   \<and> fst (create_snapshot s records descr srcs now) = next_version (manifest s)
   \<and> (versions (manifest s0) = [] \<longrightarrow>
        fst (run_ops s0 ops) =
          map (\<lambda>k. Inr (CHR ''v'' # fmt_03d (int k))) [1 ..< Suc (creations ops)])
   \<and> (fst (create_snapshot s records descr srcs now) = Inr v \<longrightarrow>
        current (manifest (snd (create_snapshot s records descr srcs now))) = Some v)
   \<and> (fst (rollback s1 target) = Inr recs \<longrightarrow>
        current (manifest (snd (rollback s1 target))) = Some target)"
proof -
  have a: "versions (manifest s0) = [] \<Longrightarrow>
        fst (run_ops s0 ops) =
          map (\<lambda>k. Inr (CHR ''v'' # fmt_03d (int k))) [1 ..< Suc (creations ops)]"
    using run_ops_ids[of s0 0 ops] by simp
  show ?thesis
    using a next_version_empty next_version_max create_snapshot_result create_snapshot_current
      rollback_current
    by blast
qed

text \<open>
  The claim at the sample stores: a new store, \<open>store_v2\<close> with suffixes 1 and 2, the session
  \<open>session3\<close>, a snapshot on \<open>store_v1\<close> and a rollback of \<open>store_v2\<close> to \<open>v001\<close>.
\<close>

theorem version_allocation_witness:
  "versions (manifest (fresh_store None)) = []
   \<and> next_version (manifest (fresh_store None)) = Inr ''v001''
   \<and> versions (manifest store_v2) \<noteq> []
   \<and> version_numbers (map version (versions (manifest store_v2))) = Some [1, 2]
   \<and> next_version (manifest store_v2) = Inr (CHR ''v'' # fmt_03d (Max (set [1, 2]) + 1))
   \<and> fst (run_ops (fresh_store None) session3) =
        map (\<lambda>k. Inr (CHR ''v'' # fmt_03d (int k))) [1 ..< Suc (creations session3)]
   \<and> fst (create_snapshot store_v1 [] ''b'' None ''t2'') = Inr ''v002''
   \<and> current (manifest (snd (create_snapshot store_v1 [] ''b'' None ''t2''))) = Some ''v002''
   \<and> fst (rollback store_v2 ''v001'') = Inr [sample_record ''one'']
   \<and> current (manifest (snd (rollback store_v2 ''v001''))) = Some ''v001''"
proof -
  have h1: "versions (manifest (fresh_store None)) = []"
    by (simp add: fresh_store_def load_manifest_def)
  have h2: "versions (manifest store_v2) \<noteq> []
            \<and> version_numbers (map version (versions (manifest store_v2))) = Some [1, 2]"
    by (simp add: store_v2_eq info1_def info2_def vn12 del: version_numbers.simps)
  have h3: "fst (create_snapshot store_v1 [] ''b'' None ''t2'') = Inr ''v002''"
    by (simp add: create_snapshot_result store_v1_eq nv1)
  have h4: "fst (rollback store_v2 ''v001'') = Inr [sample_record ''one'']"
    by (simp add: rollback_def store_v2_eq load_version_records_def)
  show ?thesis
    using h1 h2 h3 h4
      version_allocation [where ?m0.0 = "manifest (fresh_store None)"
        and ?m1.0 = "manifest store_v2" and nums = "[1, 2]" and ?s0.0 = "fresh_store None"
        and ops = session3 and s = store_v1 and records = "[]" and descr = "''b''"
        and srcs = None and now = "''t2''" and v = "''v002''" and ?s1.0 = store_v2
        and target = "''v001''" and recs = "[sample_record ''one'']"]
    by simp
qed

lemma orphan_store_eq:
  "orphan_store =
     \<lparr>manifest = \<lparr>versions = [], current = None\<rparr>, manifest_file = None,
      vdirs = [''v001'' \<mapsto> \<lparr>records_file = Some [Json (sample_record ''one'')],
                                info_file = Some info1\<rparr>],
      training_data_dir = Some ''training'', training_files = Map.empty\<rparr>"
  by (simp add: orphan_store_def store_v1_eq load_manifest_def)

text \<open>
  Claim C1, as stated, fails for \<open>rollback\<close>: the target is looked up among the directories
  under \<open>versions/\<close>, not in the manifest. On \<open>orphan_store\<close> the invariant holds (\<open>current\<close>
  is null), \<open>rollback("v001")\<close> finds the directory and returns its record, and \<open>current\<close> is
  then \<open>v001\<close>, which no entry of \<open>versions\<close> carries.
\<close>

theorem rollback_breaks_invariant:
  "manifest_inv (manifest orphan_store) \<and>
   fst (rollback orphan_store ''v001'') = Inr [sample_record ''one''] \<and>
   \<not> manifest_inv (manifest (snd (rollback orphan_store ''v001'')))"
  by (simp add: orphan_store_eq manifest_inv_def rollback_def load_version_records_def
        save_manifest_def)

lemma create_snapshot_inv:
  "manifest_inv (manifest s) \<Longrightarrow>
   manifest_inv (manifest (snd (create_snapshot s records descr srcs now)))"
  by (auto simp: create_snapshot_def save_manifest_def manifest_inv_def Let_def
        split: sum.splits option.splits)

lemma delete_version_inv:
  "manifest_inv (manifest s) \<Longrightarrow> manifest_inv (manifest (snd (delete_version s v)))"
  by (auto simp: delete_version_def save_manifest_def manifest_inv_def Let_def
        split: option.splits)

lemma rollback_inv:
  "manifest_inv (manifest s) \<Longrightarrow> target \<in> set (map version (versions (manifest s))) \<Longrightarrow>
   manifest_inv (manifest (snd (rollback s target)))"
  by (auto simp: rollback_def save_manifest_def manifest_inv_def
        split: sum.splits option.splits)

lemma merge_manifest: "manifest (snd (merge_to_training s arg)) = manifest s"
  by (auto simp: merge_to_training_def Let_def split: option.splits sum.splits)

text \<open>
  Claim C1, amended. The manifest of a new store satisfies the invariant. From any store
  whose manifest satisfies it, \<open>create_snapshot\<close> and \<open>delete_version\<close> lead to a manifest
  that satisfies it, \<open>rollback\<close> does so when its target is the \<open>version\<close> of an entry of the
  manifest, and \<open>merge_to_training\<close> leaves the manifest as it is.
\<close>

theorem manifest_invariant_preserved:
  assumes "manifest_inv (manifest s)"
  shows "manifest_inv (manifest (fresh_store tdir))
     \<and> manifest_inv (manifest (snd (create_snapshot s records descr srcs now)))
     \<and> manifest_inv (manifest (snd (delete_version s v)))
     \<and> (target \<in> set (map version (versions (manifest s))) \<longrightarrow>
          manifest_inv (manifest (snd (rollback s target))))
     \<and> manifest (snd (merge_to_training s arg)) = manifest s"
  using assms create_snapshot_inv delete_version_inv rollback_inv merge_manifest
  by (simp add: fresh_store_def load_manifest_def manifest_inv_def)

text \<open>The amended claim at \<open>store_v2\<close>, with \<open>v001\<close> as the version deleted and rolled back to.\<close>

theorem manifest_invariant_preserved_witness:
  "manifest_inv (manifest store_v2)
   \<and> ''v001'' \<in> set (map version (versions (manifest store_v2)))
   \<and> manifest_inv (manifest (snd (create_snapshot store_v2 [] ''third'' None ''t3'')))
   \<and> manifest_inv (manifest (snd (delete_version store_v2 ''v001'')))
   \<and> manifest_inv (manifest (snd (rollback store_v2 ''v001'')))
   \<and> manifest (snd (merge_to_training store_v2 None)) = manifest store_v2"
proof -
  have h1: "manifest_inv (manifest store_v2)"
    by (simp add: store_v2_eq manifest_inv_def info1_def info2_def)
  have h2: "''v001'' \<in> set (map version (versions (manifest store_v2)))"
    by (simp add: store_v2_eq info1_def info2_def)
  show ?thesis
    using h1 h2
      manifest_invariant_preserved [OF h1, where records = "[]" and descr = "''third''"
        and srcs = None and now = "''t3''" and v = "''v001''" and target = "''v001''"
        and arg = None]
    by simp
qed

lemma corrupt_store_eq:
  "corrupt_store =
     \<lparr>manifest = \<lparr>versions = [info1, info2], current = Some ''v002''\<rparr>,
      manifest_file = Some \<lparr>versions = [info1, info2], current = Some ''v002''\<rparr>,
      vdirs = [''v001'' \<mapsto> \<lparr>records_file = Some [Json (sample_record ''one''), Malformed],
                                info_file = Some info1\<rparr>,
               ''v002'' \<mapsto> \<lparr>records_file = Some [Json (sample_record ''two''),
                                                     Json (sample_record ''three'')],
                                info_file = Some info2\<rparr>],
      training_data_dir = Some ''training'', training_files = Map.empty\<rparr>"
  by (simp add: corrupt_store_def store_v2_eq fun_upd_twist)

text \<open>
  Claim C7, as stated, fails where the target's directory exists and its record file has a
  line that is not JSON: \<open>_load_version_records\<close> raises before \<open>current\<close> is assigned. On
  \<open>corrupt_store\<close> the directory \<open>v001\<close> exists, \<open>rollback("v001")\<close> raises
  \<open>JSONDecodeError\<close>, and \<open>current\<close> is still \<open>v002\<close>.
\<close>

theorem rollback_corrupt_record_file:
  "vdirs corrupt_store ''v001'' \<noteq> None \<and>
   rollback corrupt_store ''v001'' = (Inl JSONDecodeError, corrupt_store) \<and>
   current (manifest (snd (rollback corrupt_store ''v001''))) = Some ''v002''"
  by (simp add: corrupt_store_eq rollback_def load_version_records_def)

text \<open>
  Claim C7, amended. When the target's directory exists and its records load, \<open>rollback\<close>
  returns them and changes the store in one place only: \<open>current\<close> becomes the target, in
  the manifest and in the manifest file. When the directory exists and loading the records
  raises, \<open>rollback\<close> raises the same error and the store is unchanged. When the directory is
  absent, \<open>rollback\<close> raises \<open>ValueError\<close> "Version ... not found" and the store is unchanged.
  In every case the version list, the version directories with their record files and the
  training files are the same before and after.
\<close>

theorem rollback_frame:
  "(vdirs s target \<noteq> None \<and> load_version_records s target = Inr recs \<longrightarrow>
      rollback s target =
        (Inr recs,
         s\<lparr>manifest := (manifest s)\<lparr>current := Some target\<rparr>,
           manifest_file := Some ((manifest s)\<lparr>current := Some target\<rparr>)\<rparr>))
   \<and> (vdirs s target \<noteq> None \<and> load_version_records s target = Inl e \<longrightarrow>
      rollback s target = (Inl e, s))
   \<and> (vdirs s target = None \<longrightarrow>
      rollback s target = (Inl (ValueError (''Version '' @ target @ '' not found'')), s))
   \<and> versions (manifest (snd (rollback s target))) = versions (manifest s)
   \<and> vdirs (snd (rollback s target)) = vdirs s
   \<and> training_files (snd (rollback s target)) = training_files s"
  by (auto simp: rollback_def save_manifest_def split: sum.splits)

text \<open>
  The three cases at the sample stores: \<open>v001\<close> in \<open>store_v2\<close>, \<open>v001\<close> in \<open>corrupt_store\<close>,
  and the absent \<open>v999\<close>.
\<close>

theorem rollback_frame_witness:
  "vdirs store_v2 ''v001'' \<noteq> None
   \<and> load_version_records store_v2 ''v001'' = Inr [sample_record ''one'']
   \<and> rollback store_v2 ''v001'' =
        (Inr [sample_record ''one''],
         store_v2\<lparr>manifest := (manifest store_v2)\<lparr>current := Some ''v001''\<rparr>,
           manifest_file := Some ((manifest store_v2)\<lparr>current := Some ''v001''\<rparr>)\<rparr>)
   \<and> vdirs corrupt_store ''v001'' \<noteq> None
   \<and> load_version_records corrupt_store ''v001'' = Inl JSONDecodeError
   \<and> rollback corrupt_store ''v001'' = (Inl JSONDecodeError, corrupt_store)
   \<and> vdirs store_v2 ''v999'' = None
   \<and> rollback store_v2 ''v999'' = (Inl (ValueError (''Version '' @ ''v999'' @ '' not found'')), store_v2)"
proof -
  have h1: "vdirs store_v2 ''v001'' \<noteq> None
            \<and> load_version_records store_v2 ''v001'' = Inr [sample_record ''one'']"
    by (simp add: store_v2_eq load_version_records_def)
  have h2: "vdirs corrupt_store ''v001'' \<noteq> None
            \<and> load_version_records corrupt_store ''v001'' = Inl JSONDecodeError"
    by (simp add: corrupt_store_eq load_version_records_def)
  have h3: "vdirs store_v2 ''v999'' = None"
    by (simp add: store_v2_eq)
  show ?thesis
    using h1 h2 h3
      rollback_frame [where s = store_v2 and target = "''v001''"
        and recs = "[sample_record ''one'']"]
      rollback_frame [where s = corrupt_store and target = "''v001''" and e = JSONDecodeError]
      rollback_frame [where s = store_v2 and target = "''v999''"]
    by simp
qed

lemma training_store_eq:
  "training_store =
     \<lparr>manifest = \<lparr>versions = [info1, info2], current = Some ''v002''\<rparr>,
      manifest_file = Some \<lparr>versions = [info1, info2], current = Some ''v002''\<rparr>,
      vdirs = [''v001'' \<mapsto> \<lparr>records_file = Some [Json (sample_record ''one'')],
                                info_file = Some info1\<rparr>,
               ''v002'' \<mapsto> \<lparr>records_file = Some [Json (sample_record ''two''),
                                                     Json (sample_record ''three'')],
                                info_file = Some info2\<rparr>],
      training_data_dir = Some ''training'',
      training_files = [''train.jsonl'' \<mapsto> [Json (sample_record ''old''), Blank]]\<rparr>"
  by (simp add: training_store_def store_v2_eq)

text \<open>
  Claim C3. With a training directory configured, a destination file \<open>train.jsonl\<close> holding
  the records \<open>existing\<close> and a resolved version holding the records \<open>new\<close>, not empty,
  \<open>merge_to_training\<close> returns the path of \<open>train.jsonl\<close> and changes two files of the training
  directory and nothing else: \<open>train.jsonl.bak.<version>\<close> receives the destination as it
  was, and \<open>train.jsonl\<close> receives one line per record of \<open>existing\<close> followed by \<open>new\<close>, in
  that order, which reads back as those \<open>length existing + length new\<close> records.
\<close>

theorem merge_appends:
  assumes "training_data_dir s = Some dir"
    and "resolve_version s arg = Some v" and "v \<noteq> []"
    and "load_version_records s v = Inr new" and "new \<noteq> []"
    and "training_files s ''train.jsonl'' = Some old_lines"
    and "read_jsonl old_lines = Inr existing"
  shows "merge_to_training s arg =
           (Inr (dir, ''train.jsonl''),
            s\<lparr>training_files := (training_files s)
                 (''train.jsonl.bak.'' @ v \<mapsto> old_lines,
                  ''train.jsonl'' \<mapsto> map Json (existing @ new))\<rparr>)
     \<and> training_files (snd (merge_to_training s arg)) ''train.jsonl''
          = Some (map Json (existing @ new))
     \<and> read_jsonl (map Json (existing @ new)) = Inr (existing @ new)
     \<and> length (existing @ new) = length existing + length new
     \<and> training_files (snd (merge_to_training s arg)) (''train.jsonl.bak.'' @ v) = Some old_lines
     \<and> (\<forall>f. f \<noteq> ''train.jsonl'' \<and> f \<noteq> ''train.jsonl.bak.'' @ v \<longrightarrow>
            training_files (snd (merge_to_training s arg)) f = training_files s f)"
proof -
  have m: "merge_to_training s arg =
           (Inr (dir, ''train.jsonl''),
            s\<lparr>training_files := (training_files s)
                 (''train.jsonl.bak.'' @ v \<mapsto> old_lines,
                  ''train.jsonl'' \<mapsto> map Json (existing @ new))\<rparr>)"
    using assms by (simp add: merge_to_training_def Let_def)
  have r: "read_jsonl (map Json (existing @ new)) = Inr (existing @ new)"
    by (rule read_jsonl_written)
  show ?thesis unfolding m using r by (simp del: map_append)
qed

text \<open>
  The claim at \<open>training_store\<close>: one existing record (and a blank line), the current version
  \<open>v002\<close> with two records.
\<close>

theorem merge_appends_witness:
  "training_data_dir training_store = Some ''training''
   \<and> resolve_version training_store None = Some ''v002''
   \<and> load_version_records training_store ''v002'' = Inr [sample_record ''two'', sample_record ''three'']
   \<and> training_files training_store ''train.jsonl'' = Some [Json (sample_record ''old''), Blank]
   \<and> read_jsonl [Json (sample_record ''old''), Blank] = Inr [sample_record ''old'']
   \<and> merge_to_training training_store None =
       (Inr (''training'', ''train.jsonl''),
        training_store\<lparr>training_files := (training_files training_store)
           (''train.jsonl.bak.'' @ ''v002'' \<mapsto> [Json (sample_record ''old''), Blank],
            ''train.jsonl'' \<mapsto> map Json ([sample_record ''old''] @
                                          [sample_record ''two'', sample_record ''three'']))\<rparr>)"
proof -
  have h1: "training_data_dir training_store = Some ''training''"
    by (simp add: training_store_eq)
  have h2: "resolve_version training_store None = Some ''v002''"
    by (simp add: training_store_eq resolve_version_def)
  have h3: "''v002'' \<noteq> []" by simp
  have h4: "load_version_records training_store ''v002''
            = Inr [sample_record ''two'', sample_record ''three'']"
    by (simp add: training_store_eq load_version_records_def)
  have h5: "[sample_record ''two'', sample_record ''three''] \<noteq> []" by simp
  have h6: "training_files training_store ''train.jsonl''
            = Some [Json (sample_record ''old''), Blank]"
    by (simp add: training_store_eq)
  have h7: "read_jsonl [Json (sample_record ''old''), Blank] = Inr [sample_record ''old'']"
    by simp
  show ?thesis
    using h1 h2 h4 h6 h7 merge_appends [OF h1 h2 h3 h4 h5 h6 h7]
    by simp
qed

section \<open>Properties of the deduplication index\<close>

lemma dedup_loop_counts:
  "dedup_loop h col key idx uniq st rs = (Inr (kept, st'), idx') \<Longrightarrow>
   (\<exists>ks. kept = uniq @ ks \<and> set ks \<subseteq> {r \<in> set rs. truthy (dict_get r key (JStr ''''))}
         \<and> unique st' = unique st + length ks)
   \<and> exact_dupes st' + near_dupes st' + unique st'
       = exact_dupes st + near_dupes st + unique st
         + length (filter (\<lambda>r. truthy (dict_get r key (JStr ''''))) rs)
   \<and> total_input st' = total_input st"
proof (induction rs arbitrary: idx uniq st)
  case Nil
  then show ?case by simp
next
  case (Cons r rs)
  show ?case
  proof (cases "truthy (dict_get r key (JStr ''''))")
    case False
    with Cons.prems have "dedup_loop h col key idx uniq st rs = (Inr (kept, st'), idx')"
      by simp
    from Cons.IH[OF this] False show ?thesis by auto
  next
    case True
    then obtain content where t: "dict_get r key (JStr '''') = JStr content"
      using Cons.prems by (cases "dict_get r key (JStr '''')") (auto simp: Let_def)
    consider (exact) "is_duplicate h col idx content = (True, ''exact'')"
      | (near) "is_duplicate h col idx content = (True, ''near'')"
      | (new) "is_duplicate h col idx content = (False, '''')"
      unfolding is_duplicate_def by (cases "h content \<in> exact_hashes idx";
          cases "lsh_query col (lsh idx) (make_minhash idx content) = []") simp_all
    then show ?thesis
    proof cases
      case exact
      with Cons.prems True t
      have "dedup_loop h col key idx uniq (st\<lparr>exact_dupes := exact_dupes st + 1\<rparr>) rs
            = (Inr (kept, st'), idx')" by simp
      from Cons.IH[OF this] True show ?thesis by auto
    next
      case near
      with Cons.prems True t
      have "dedup_loop h col key idx uniq (st\<lparr>near_dupes := near_dupes st + 1\<rparr>) rs
            = (Inr (kept, st'), idx')" by simp
      from Cons.IH[OF this] True show ?thesis by auto
    next
      case new
      with Cons.prems True t
      have "dedup_loop h col key (add_to_index h idx content None) (uniq @ [r])
              (st\<lparr>unique := unique st + 1\<rparr>) rs
            = (Inr (kept, st'), idx')" by simp
      from Cons.IH[OF this] True show ?thesis by auto
    qed
  qed
qed

lemma dedup_loop_total:
  "\<forall>r \<in> set rs. \<not> truthy (dict_get r key (JStr '''')) \<or> is_jstr (dict_get r key (JStr '''')) \<Longrightarrow>
   \<exists>kept st' idx'. dedup_loop h col key idx uniq st rs = (Inr (kept, st'), idx')"
proof (induction rs arbitrary: idx uniq st)
  case Nil
  then show ?case by simp
next
  case (Cons r rs)
  then have ih: "\<And>idx uniq st. \<exists>kept st' idx'. dedup_loop h col key idx uniq st rs = (Inr (kept, st'), idx')"
    by simp
  show ?case
  proof (cases "truthy (dict_get r key (JStr ''''))")
    case False
    then show ?thesis using ih by simp
  next
    case True
    with Cons.prems obtain content where t: "dict_get r key (JStr '''') = JStr content"
      by (cases "dict_get r key (JStr '''')") auto
    show ?thesis using True t ih by (simp add: Let_def split: prod.splits)
  qed
qed

text \<open>
  Claim C10. When \<open>deduplicate_batch\<close> returns, the kept list has \<open>stats.unique\<close> members,
  each of them a record of the batch whose content is present and not empty; a record whose
  content is missing or empty (falsy) is in no counter, so \<open>exact + near + unique\<close> is the
  number of records with content, which is at most \<open>total_input = len(records)\<close>. The call
  returns for every batch whose contents are strings or missing.
\<close>

theorem missing_content_dropped:
  "(fst (deduplicate_batch h col idx records key) = Inr (kept, st) \<longrightarrow>
      length kept = unique st
      \<and> (\<forall>r \<in> set kept. r \<in> set records \<and> truthy (dict_get r key (JStr '''')))
      \<and> total_input st = length records
      \<and> exact_dupes st + near_dupes st + unique st
          = length (filter (\<lambda>r. truthy (dict_get r key (JStr ''''))) records)
      \<and> exact_dupes st + near_dupes st + unique st \<le> total_input st)
   \<and> ((\<forall>r \<in> set records. \<not> truthy (dict_get r key (JStr ''''))
                            \<or> is_jstr (dict_get r key (JStr ''''))) \<longrightarrow>
        (\<exists>kept' st'. fst (deduplicate_batch h col idx records key) = Inr (kept', st')))"
proof (intro conjI impI)
  assume a: "fst (deduplicate_batch h col idx records key) = Inr (kept, st)"
  let ?st0 = "\<lparr>total_input = length records, exact_dupes = 0, near_dupes = 0, unique = 0\<rparr>"
  obtain idx' where "dedup_loop h col key idx [] ?st0 records = (Inr (kept, st), idx')"
    using a unfolding deduplicate_batch_def by (metis prod.collapse)
  from dedup_loop_counts[OF this]
  have k: "set kept \<subseteq> {r \<in> set records. truthy (dict_get r key (JStr ''''))}"
    and u: "unique st = length kept"
    and c: "exact_dupes st + near_dupes st + unique st
            = length (filter (\<lambda>r. truthy (dict_get r key (JStr ''''))) records)"
    and t: "total_input st = length records"
    by auto
  show "length kept = unique st" using u by simp
  show "\<forall>r \<in> set kept. r \<in> set records \<and> truthy (dict_get r key (JStr ''''))"
    using k by auto
  show "total_input st = length records" by (rule t)
  show "exact_dupes st + near_dupes st + unique st
          = length (filter (\<lambda>r. truthy (dict_get r key (JStr ''''))) records)" by (rule c)
  show "exact_dupes st + near_dupes st + unique st \<le> total_input st"
    unfolding c t by (rule length_filter_le)
next
  assume "\<forall>r \<in> set records. \<not> truthy (dict_get r key (JStr ''''))
                            \<or> is_jstr (dict_get r key (JStr ''''))"
  from dedup_loop_total[OF this]
  show "\<exists>kept' st'. fst (deduplicate_batch h col idx records key) = Inr (kept', st')"
    unfolding deduplicate_batch_def by (metis fst_conv)
qed

lemma batch_abc_gaps:
  "fst (deduplicate_batch (\<lambda>s. s) (=) (new_index 128 5) [r_abc, r_no_text, r_empty] ''text'')
   = Inr ([r_abc], \<lparr>total_input = 3, exact_dupes = 0, near_dupes = 0, unique = 1\<rparr>)"
  by code_simp

text \<open>
  The claim at a batch of three records of which one has no \<open>text\<close> and one an empty
  \<open>text\<close>: one record is kept and \<open>exact + near + unique = 1 < 3 = total_input\<close>.
\<close>

theorem missing_content_dropped_witness:
  "fst (deduplicate_batch (\<lambda>s. s) (=) (new_index 128 5) [r_abc, r_no_text, r_empty] ''text'')
     = Inr ([r_abc], \<lparr>total_input = 3, exact_dupes = 0, near_dupes = 0, unique = 1\<rparr>)
   \<and> length [r_abc] = unique \<lparr>total_input = 3, exact_dupes = 0, near_dupes = 0, unique = 1\<rparr>
   \<and> \<not> truthy (dict_get r_no_text ''text'' (JStr ''''))
   \<and> \<not> truthy (dict_get r_empty ''text'' (JStr ''''))
   \<and> is_jstr (dict_get r_abc ''text'' (JStr ''''))
   \<and> (0::nat) + 0 + 1 < 3"
proof -
  have h: "\<forall>r \<in> set [r_abc, r_no_text, r_empty]. \<not> truthy (dict_get r ''text'' (JStr ''''))
                            \<or> is_jstr (dict_get r ''text'' (JStr ''''))"
    by (simp add: r_abc_def r_no_text_def r_empty_def dict_get_def)
  show ?thesis
    using batch_abc_gaps h
      missing_content_dropped [where h = "\<lambda>s. s" and col = "(=)" and idx = "new_index 128 5"
        and records = "[r_abc, r_no_text, r_empty]" and key = "''text''" and kept = "[r_abc]"
        and st = "\<lparr>total_input = 3, exact_dupes = 0, near_dupes = 0, unique = 1\<rparr>"]
    by (simp add: r_abc_def r_no_text_def r_empty_def dict_get_def)
qed

lemma make_minhash_cong:
  "shingle_size i = shingle_size idx \<Longrightarrow> make_minhash i c = make_minhash idx c"
  by (simp add: make_minhash_def)

lemma add_to_index_facts:
  "h c \<in> exact_hashes (add_to_index h idx c k)
   \<and> exact_hashes idx \<subseteq> exact_hashes (add_to_index h idx c k)
   \<and> shingle_size (add_to_index h idx c k) = shingle_size idx
   \<and> (\<exists>l. lsh (add_to_index h idx c k) = lsh idx @ l)"
  by (auto simp: add_to_index_def Let_def split: option.splits)

lemma lsh_query_append:
  "lsh_query col l mh \<noteq> [] \<Longrightarrow> lsh_query col (l @ l') mh \<noteq> []"
  by (simp add: lsh_query_def)

lemma dedup_step_exact:
  "dict_get r key (JStr '''') = JStr c \<Longrightarrow> c \<noteq> [] \<Longrightarrow> h c \<in> exact_hashes idx \<Longrightarrow>
   dedup_loop h col key idx uniq st (r # rest)
   = dedup_loop h col key idx uniq (st\<lparr>exact_dupes := exact_dupes st + 1\<rparr>) rest"
  by (simp add: is_duplicate_def)

lemma dedup_step_near:
  "dict_get r key (JStr '''') = JStr c \<Longrightarrow> c \<noteq> [] \<Longrightarrow> h c \<notin> exact_hashes idx \<Longrightarrow>
   lsh_query col (lsh idx) (make_minhash idx c) \<noteq> [] \<Longrightarrow>
   dedup_loop h col key idx uniq st (r # rest)
   = dedup_loop h col key idx uniq (st\<lparr>near_dupes := near_dupes st + 1\<rparr>) rest"
  by (simp add: is_duplicate_def)

lemma dedup_step_keep:
  "dict_get r key (JStr '''') = JStr c \<Longrightarrow> c \<noteq> [] \<Longrightarrow> \<not> fst (is_duplicate h col idx c) \<Longrightarrow>
   dedup_loop h col key idx uniq st (r # rest)
   = dedup_loop h col key (add_to_index h idx c None) (uniq @ [r])
       (st\<lparr>unique := unique st + 1\<rparr>) rest"
  by (auto simp: is_duplicate_def split: if_splits)

lemma dedup_loop_mono:
  "dedup_loop h col key idx uniq st rs = (Inr (u, s), i) \<Longrightarrow>
   exact_hashes idx \<subseteq> exact_hashes i \<and> shingle_size i = shingle_size idx
   \<and> (\<exists>l. lsh i = lsh idx @ l)"
proof (induction rs arbitrary: idx uniq st)
  case Nil
  then show ?case by simp
next
  case (Cons r rs)
  show ?case
  proof (cases "truthy (dict_get r key (JStr ''''))")
    case False
    with Cons.prems have "dedup_loop h col key idx uniq st rs = (Inr (u, s), i)" by simp
    from Cons.IH[OF this] show ?thesis .
  next
    case True
    then obtain c where t: "dict_get r key (JStr '''') = JStr c"
      using Cons.prems by (cases "dict_get r key (JStr '''')") (auto simp: Let_def)
    with True have ne: "c \<noteq> []" by simp
    consider (exact) "h c \<in> exact_hashes idx"
      | (near) "h c \<notin> exact_hashes idx" "lsh_query col (lsh idx) (make_minhash idx c) \<noteq> []"
      | (new) "\<not> fst (is_duplicate h col idx c)"
      unfolding is_duplicate_def
      by (cases "h c \<in> exact_hashes idx";
          cases "lsh_query col (lsh idx) (make_minhash idx c) = []") simp_all
    then show ?thesis
    proof cases
      case exact
      from Cons.prems[unfolded dedup_step_exact[where h = h, OF t ne exact]] Cons.IH show ?thesis by blast
    next
      case near
      from Cons.prems[unfolded dedup_step_near[where h = h, OF t ne near]] Cons.IH show ?thesis by blast
    next
      case new
      from Cons.prems[unfolded dedup_step_keep[where h = h, OF t ne new]]
      have "exact_hashes (add_to_index h idx c None) \<subseteq> exact_hashes i
            \<and> shingle_size i = shingle_size (add_to_index h idx c None)
            \<and> (\<exists>l. lsh i = lsh (add_to_index h idx c None) @ l)"
        by (rule Cons.IH)
      with add_to_index_facts[of h c idx None] show ?thesis by auto
    qed
  qed
qed

lemma dedup_loop_append:
  "dedup_loop h col key idx uniq st (xs @ ys) =
     (case dedup_loop h col key idx uniq st xs of
        (Inl e, j) \<Rightarrow> (Inl e, j)
      | (Inr (u, s), j) \<Rightarrow> dedup_loop h col key j u s ys)"
proof (induction xs arbitrary: idx uniq st)
  case Nil
  show ?case by simp
next
  case (Cons r xs)
  show ?case
    by (cases "dict_get r key (JStr '''')")
       (simp_all add: Cons.IH Let_def split: prod.splits)
qed

lemma later_identical_rejected:
  assumes t1: "dict_get r1 key (JStr '''') = JStr c"
    and t2: "dict_get r2 key (JStr '''') = JStr c"
    and ne: "c \<noteq> []"
    and run: "dedup_loop h col key idx uniq st (r1 # mid) = (Inr (u, s), i)"
  shows "\<exists>s'. dedup_loop h col key idx uniq st (r1 # mid @ r2 # post)
               = dedup_loop h col key i u s' post
             \<and> unique s' = unique s \<and> total_input s' = total_input s
             \<and> exact_dupes s' + near_dupes s' = exact_dupes s + near_dupes s + 1
             \<and> (\<not> fst (is_duplicate h col idx c) \<longrightarrow>
                  s' = s\<lparr>exact_dupes := exact_dupes s + 1\<rparr>)"
proof -
  have whole: "dedup_loop h col key idx uniq st (r1 # mid @ r2 # post)
               = dedup_loop h col key i u s (r2 # post)"
    using dedup_loop_append[of h col key idx uniq st "r1 # mid" "r2 # post"] run by simp
  have mono: "exact_hashes idx \<subseteq> exact_hashes i" "shingle_size i = shingle_size idx"
    "\<exists>l. lsh i = lsh idx @ l"
    using dedup_loop_mono[OF run] by auto
  show ?thesis
  proof (cases "fst (is_duplicate h col idx c)")
    case False
    from run[unfolded dedup_step_keep[where h = h, OF t1 ne False]]
    have "exact_hashes (add_to_index h idx c None) \<subseteq> exact_hashes i"
      using dedup_loop_mono by blast
    with add_to_index_facts[of h c idx None] have "h c \<in> exact_hashes i" by auto
    from dedup_step_exact[where h = h, OF t2 ne this] whole False
    show ?thesis by (intro exI[of _ "s\<lparr>exact_dupes := exact_dupes s + 1\<rparr>"]) simp
  next
    case True
    show ?thesis
    proof (cases "h c \<in> exact_hashes i")
      case in_i: True
      from dedup_step_exact[where h = h, OF t2 ne this] whole True
      show ?thesis by (intro exI[of _ "s\<lparr>exact_dupes := exact_dupes s + 1\<rparr>"]) simp
    next
      case not_i: False
      with mono(1) have "h c \<notin> exact_hashes idx" by auto
      with True have "lsh_query col (lsh idx) (make_minhash idx c) \<noteq> []"
        by (auto simp: is_duplicate_def split: if_splits)
      then have "lsh_query col (lsh i) (make_minhash i c) \<noteq> []"
        using mono(3) make_minhash_cong[OF mono(2), of c] lsh_query_append by fastforce
      from dedup_step_near[where h = h, OF t2 ne not_i this] whole True
      show ?thesis by (intro exI[of _ "s\<lparr>near_dupes := near_dupes s + 1\<rparr>"]) simp
    qed
  qed
qed

lemma two_identical_records:
  assumes t1: "dict_get r1 key (JStr '''') = JStr c"
    and t2: "dict_get r2 key (JStr '''') = JStr c"
    and ne: "c \<noteq> []"
  shows "fst (deduplicate_batch h col (new_index np k) [r1, r2] key)
         = Inr ([r1], \<lparr>total_input = 2, exact_dupes = 1, near_dupes = 0, unique = 1\<rparr>)"
proof -
  have fresh: "\<not> fst (is_duplicate h col (new_index np k) c)"
    by (simp add: is_duplicate_def new_index_def lsh_query_def)
  have "h c \<in> exact_hashes (add_to_index h (new_index np k) c None)"
    using add_to_index_facts[of h c] by blast
  from dedup_step_exact[where h = h, OF t2 ne this]
       dedup_step_keep[where h = h, OF t1 ne fresh]
  show ?thesis by (simp add: deduplicate_batch_def)
qed

text \<open>
  Claim C9, as stated, fails where the first of the two identical records is itself
  reported as a duplicate of an earlier, different record. With the default shingle size 5
  the texts \<open>abc\<close> and \<open>xyz\<close> both have an empty shingle list, hence the same MinHash; with
  distinct fingerprints (\<open>hash\<close> the identity) and an LSH that matches equal signatures
  only, the batch \<open>abc, xyz, xyz\<close> on an empty index keeps \<open>abc\<close> alone: neither \<open>xyz\<close> is
  kept, and both are counted as near duplicates, none as exact.
\<close>

theorem first_occurrence_rejected:
  "fst (deduplicate_batch (\<lambda>s. s) (=) (new_index 128 5) [r_abc, r_xyz, r_xyz] ''text'')
   = Inr ([r_abc], \<lparr>total_input = 3, exact_dupes = 0, near_dupes = 2, unique = 1\<rparr>)"
  by code_simp

text \<open>
  Claim C9, amended. Let \<open>r1\<close> and \<open>r2\<close> be records with the same non-empty text \<open>c\<close>. A
  batch of just these two on an empty index keeps \<open>r1\<close> alone and counts one exact
  duplicate. In any batch, from any index: \<open>r1\<close> is kept and indexed when \<open>is_duplicate\<close>
  does not report its text at its turn; and when the loop has gone through \<open>r1\<close> and the
  records \<open>mid\<close> after it, the turn of a later \<open>r2\<close> leaves the index and the kept list as
  they are and adds one to the duplicate counters, to \<open>exact_dupes\<close> when \<open>r1\<close> was kept.
\<close>

theorem identical_text_dedup:
  assumes "dict_get r1 key (JStr '''') = JStr c"
    and "dict_get r2 key (JStr '''') = JStr c"
    and "c \<noteq> []"
  shows "fst (deduplicate_batch h col (new_index np k) [r1, r2] key)
           = Inr ([r1], \<lparr>total_input = 2, exact_dupes = 1, near_dupes = 0, unique = 1\<rparr>)
     \<and> (\<not> fst (is_duplicate h col idx c) \<longrightarrow>
          dedup_loop h col key idx uniq st (r1 # rest)
          = dedup_loop h col key (add_to_index h idx c None) (uniq @ [r1])
              (st\<lparr>unique := unique st + 1\<rparr>) rest)
     \<and> (dedup_loop h col key idx uniq st (r1 # mid) = (Inr (u, s), i) \<longrightarrow>
          (\<exists>s'. dedup_loop h col key idx uniq st (r1 # mid @ r2 # post)
                  = dedup_loop h col key i u s' post
               \<and> unique s' = unique s \<and> total_input s' = total_input s
               \<and> exact_dupes s' + near_dupes s' = exact_dupes s + near_dupes s + 1
               \<and> (\<not> fst (is_duplicate h col idx c) \<longrightarrow>
                    s' = s\<lparr>exact_dupes := exact_dupes s + 1\<rparr>)))"
  using two_identical_records[OF assms] dedup_step_keep[where h = h, OF assms(1,3)]
    later_identical_rejected[OF assms]
  by blast

lemma run_abc_xyz:
  "fst (dedup_loop (\<lambda>s. s) (=) ''text'' (new_index 128 5) []
          \<lparr>total_input = 3, exact_dupes = 0, near_dupes = 0, unique = 0\<rparr> [r_abc, r_xyz])
   = Inr ([r_abc], \<lparr>total_input = 3, exact_dupes = 0, near_dupes = 1, unique = 1\<rparr>)"
  by code_simp

text \<open>
  The amended claim at \<open>r_abc\<close> and \<open>r_abc2\<close>, which share the text \<open>abc\<close>: as a batch of
  two, and with \<open>r_xyz\<close> between them.
\<close>

theorem identical_text_dedup_witness:
  "dict_get r_abc ''text'' (JStr '''') = JStr ''abc''
   \<and> dict_get r_abc2 ''text'' (JStr '''') = JStr ''abc''
   \<and> ''abc'' \<noteq> []
   \<and> \<not> fst (is_duplicate (\<lambda>s. s) (=) (new_index 128 5) ''abc'')
   \<and> fst (deduplicate_batch (\<lambda>s. s) (=) (new_index 128 5) [r_abc, r_abc2] ''text'')
       = Inr ([r_abc], \<lparr>total_input = 2, exact_dupes = 1, near_dupes = 0, unique = 1\<rparr>)
   \<and> fst (dedup_loop (\<lambda>s. s) (=) ''text'' (new_index 128 5) []
             \<lparr>total_input = 3, exact_dupes = 0, near_dupes = 0, unique = 0\<rparr>
             (r_abc # [r_xyz] @ r_abc2 # []))
       = Inr ([r_abc], \<lparr>total_input = 3, exact_dupes = 1, near_dupes = 1, unique = 1\<rparr>)"
proof -
  let ?st0 = "\<lparr>total_input = 3, exact_dupes = 0, near_dupes = 0, unique = 0\<rparr>"
  let ?s = "\<lparr>total_input = 3, exact_dupes = 0, near_dupes = 1, unique = 1\<rparr>"
  let ?i = "snd (dedup_loop (\<lambda>s. s) (=) ''text'' (new_index 128 5) [] ?st0 [r_abc, r_xyz])"
  have h1: "dict_get r_abc ''text'' (JStr '''') = JStr ''abc''"
    by (simp add: r_abc_def dict_get_def)
  have h2: "dict_get r_abc2 ''text'' (JStr '''') = JStr ''abc''"
    by (simp add: r_abc2_def dict_get_def)
  have h3: "''abc'' \<noteq> []" by simp
  have h4: "\<not> fst (is_duplicate (\<lambda>s. s) (=) (new_index 128 5) ''abc'')"
    by (simp add: is_duplicate_def new_index_def lsh_query_def)
  have h5: "dedup_loop (\<lambda>s. s) (=) ''text'' (new_index 128 5) [] ?st0 (r_abc # [r_xyz])
            = (Inr ([r_abc], ?s), ?i)"
    using run_abc_xyz by (simp add: prod_eq_iff)
  from identical_text_dedup [OF h1 h2 h3, where h = "\<lambda>s. s" and col = "(=)" and np = 128
      and k = 5 and idx = "new_index 128 5" and uniq = "[]" and st = ?st0 and mid = "[r_xyz]"
      and u = "[r_abc]" and s = ?s and i = ?i and post = "[]"]
  have two: "fst (deduplicate_batch (\<lambda>s. s) (=) (new_index 128 5) [r_abc, r_abc2] ''text'')
       = Inr ([r_abc], \<lparr>total_input = 2, exact_dupes = 1, near_dupes = 0, unique = 1\<rparr>)"
    and later: "\<exists>s'. dedup_loop (\<lambda>s. s) (=) ''text'' (new_index 128 5) [] ?st0
                       (r_abc # [r_xyz] @ r_abc2 # [])
                     = dedup_loop (\<lambda>s. s) (=) ''text'' ?i [r_abc] s' []
                  \<and> (\<not> fst (is_duplicate (\<lambda>s. s) (=) (new_index 128 5) ''abc'') \<longrightarrow>
                       s' = ?s\<lparr>exact_dupes := exact_dupes ?s + 1\<rparr>)"
    using h5 by blast+
  from later h4 have
    "fst (dedup_loop (\<lambda>s. s) (=) ''text'' (new_index 128 5) [] ?st0
            (r_abc # [r_xyz] @ r_abc2 # []))
     = Inr ([r_abc], \<lparr>total_input = 3, exact_dupes = 1, near_dupes = 1, unique = 1\<rparr>)"
    by auto
  with h1 h2 h3 h4 two show ?thesis by blast
qed

lemma load_lines_abort:
  "load_lines h idx n pre = (Inr n', idx') \<Longrightarrow>
   load_lines h idx n (pre @ Malformed # post) = (Inl JSONDecodeError, idx')"
proof (induction pre arbitrary: idx n)
  case Nil
  then show ?case by auto
next
  case (Cons x pre)
  show ?case
  proof (cases x)
    case (Json rcd)
    with Cons.prems obtain m j where
      step: "index_existing h idx n rcd = (Inr m, j)"
      and rest: "load_lines h j m pre = (Inr n', idx')"
      by (auto split: prod.splits sum.splits)
    from Cons.IH[OF rest] step Json show ?thesis by simp
  qed (use Cons.prems in auto)
qed

lemma load_lines_raises:
  "Malformed \<in> set ls \<Longrightarrow> \<exists>e. fst (load_lines h idx n ls) = Inl e"
proof (induction ls arbitrary: idx n)
  case Nil
  then show ?case by simp
next
  case (Cons x ls)
  show ?case
  proof (cases x)
    case (Json rcd)
    with Cons.prems have m: "Malformed \<in> set ls" by auto
    show ?thesis
    proof (cases "index_existing h idx n rcd")
      case (Pair res j)
      show ?thesis
      proof (cases res)
        case (Inl e)
        with Pair Json show ?thesis by simp
      next
        case (Inr k)
        with Pair Json Cons.IH[OF m, of j k] show ?thesis by simp
      qed
    qed
  qed simp_all
qed

text \<open>
  Claim C2, as stated, fails: \<open>load_existing\<close> has no handler around \<open>json.loads\<close>. On
  \<open>broken_corpus\<close>, whose \<open>train.jsonl\<close> has a line that is not JSON between two records, the
  call raises \<open>JSONDecodeError\<close>; the record before that line is indexed, the record after
  it is not.
\<close>

theorem corrupt_line_aborts_load:
  "fst (load_existing (\<lambda>s. s) (new_index 128 5) broken_corpus) = Inl JSONDecodeError
   \<and> exact_hashes (snd (load_existing (\<lambda>s. s) (new_index 128 5) broken_corpus))
       = {''hello world''}"
  by code_simp

text \<open>
  Claim C2, amended. When \<open>train.jsonl\<close> or \<open>validation.jsonl\<close> contains a line that is not
  valid JSON, \<open>load_existing\<close> does not skip it: the call raises and the load is not
  completed. When the lines before such a line in \<open>train.jsonl\<close> load without error, the
  error is the \<open>JSONDecodeError\<close> of that line and the index is as those lines left it,
  whatever follows the line and whatever \<open>validation.jsonl\<close> holds; likewise for such a line
  in \<open>validation.jsonl\<close> when \<open>train.jsonl\<close> (if present) and the lines before it load
  without error.
\<close>

theorem load_existing_aborts:
  "((\<exists>ls. (files ''train.jsonl'' = Some ls \<or> files ''validation.jsonl'' = Some ls)
           \<and> Malformed \<in> set ls) \<longrightarrow>
      (\<exists>e. fst (load_existing h idx files) = Inl e))
   \<and> (files ''train.jsonl'' = Some (pre @ Malformed # post)
          \<and> load_lines h idx 0 pre = (Inr n, idx1) \<longrightarrow>
            load_existing h idx files = (Inl JSONDecodeError, idx1))
   \<and> ((case files ''train.jsonl'' of None \<Rightarrow> (Inr 0, idx) | Some ls \<Rightarrow> load_lines h idx 0 ls)
            = (Inr n, idx1)
          \<and> files ''validation.jsonl'' = Some (pre @ Malformed # post)
          \<and> load_lines h idx1 n pre = (Inr n2, idx2) \<longrightarrow>
            load_existing h idx files = (Inl JSONDecodeError, idx2))"
proof (intro conjI impI)
  assume "\<exists>ls. (files ''train.jsonl'' = Some ls \<or> files ''validation.jsonl'' = Some ls)
               \<and> Malformed \<in> set ls"
  then obtain ls where
    f: "files ''train.jsonl'' = Some ls \<or> files ''validation.jsonl'' = Some ls"
    and m: "Malformed \<in> set ls" by blast
  let ?t = "case files ''train.jsonl'' of None \<Rightarrow> (Inr 0, idx)
            | Some ls \<Rightarrow> load_lines h idx 0 ls"
  show "\<exists>e. fst (load_existing h idx files) = Inl e"
  proof (cases ?t)
    case (Pair res j)
    show ?thesis
    proof (cases res)
      case (Inl e)
      with Pair show ?thesis by (simp add: load_existing_def)
    next
      case (Inr k)
      have v: "files ''validation.jsonl'' = Some ls"
      proof (rule ccontr)
        assume "files ''validation.jsonl'' \<noteq> Some ls"
        with f have tr: "files ''train.jsonl'' = Some ls" by blast
        from load_lines_raises[OF m, of h idx 0] Pair Inr tr show False by simp
      qed
      from load_lines_raises[OF m, of h j k] obtain e where
        "fst (load_lines h j k ls) = Inl e" by blast
      then obtain j' where "load_lines h j k ls = (Inl e, j')" by (metis prod.collapse)
      with Pair Inr v show ?thesis by (simp add: load_existing_def)
    qed
  qed
next
  assume a: "files ''train.jsonl'' = Some (pre @ Malformed # post)
             \<and> load_lines h idx 0 pre = (Inr n, idx1)"
  then have "load_lines h idx 0 (pre @ Malformed # post) = (Inl JSONDecodeError, idx1)"
    using load_lines_abort by blast
  with a show "load_existing h idx files = (Inl JSONDecodeError, idx1)"
    by (simp add: load_existing_def)
next
  assume a: "(case files ''train.jsonl'' of None \<Rightarrow> (Inr 0, idx)
              | Some ls \<Rightarrow> load_lines h idx 0 ls) = (Inr n, idx1)
             \<and> files ''validation.jsonl'' = Some (pre @ Malformed # post)
             \<and> load_lines h idx1 n pre = (Inr n2, idx2)"
  then have "load_lines h idx1 n (pre @ Malformed # post) = (Inl JSONDecodeError, idx2)"
    using load_lines_abort by blast
  with a show "load_existing h idx files = (Inl JSONDecodeError, idx2)"
    by (simp add: load_existing_def)
qed

lemma load_hello:
  "fst (load_lines (\<lambda>s. s) (new_index 128 5) 0 [Json (sample_record ''hello world'')]) = Inr 1"
  by code_simp

text \<open>The amended claim at \<open>broken_corpus\<close>: one record loads, then the call raises.\<close>

theorem load_existing_aborts_witness:
  "broken_corpus ''train.jsonl''
     = Some ([Json (sample_record ''hello world'')] @ Malformed # [Json (sample_record ''good morning'')])
   \<and> Malformed \<in> set ([Json (sample_record ''hello world'')] @ Malformed #
                         [Json (sample_record ''good morning'')])
   \<and> fst (load_lines (\<lambda>s. s) (new_index 128 5) 0 [Json (sample_record ''hello world'')]) = Inr 1
   \<and> load_existing (\<lambda>s. s) (new_index 128 5) broken_corpus
       = (Inl JSONDecodeError,
          snd (load_lines (\<lambda>s. s) (new_index 128 5) 0 [Json (sample_record ''hello world'')]))"
proof -
  let ?pre = "[Json (sample_record ''hello world'')]"
  let ?post = "[Json (sample_record ''good morning'')]"
  let ?i = "snd (load_lines (\<lambda>s. s) (new_index 128 5) 0 ?pre)"
  have h1: "broken_corpus ''train.jsonl'' = Some (?pre @ Malformed # ?post)"
    by (simp add: broken_corpus_def)
  have h2: "load_lines (\<lambda>s. s) (new_index 128 5) 0 ?pre = (Inr 1, ?i)"
    using load_hello by (simp add: prod_eq_iff)
  have h3: "Malformed \<in> set (?pre @ Malformed # ?post)" by simp
  have h4: "\<exists>ls. (broken_corpus ''train.jsonl'' = Some ls
                  \<or> broken_corpus ''validation.jsonl'' = Some ls) \<and> Malformed \<in> set ls"
    using h1 h3 by blast
  show ?thesis
    using h1 h2 h3 h4 load_hello
      load_existing_aborts [where files = broken_corpus and pre = ?pre and post = ?post
        and h = "\<lambda>s. s" and idx = "new_index 128 5" and n = 1 and ?idx1.0 = ?i]
    by simp
qed

section \<open>Properties of the quality filter\<close>

text \<open>
  Claim C5, as stated, fails: without an override the lower bound is
  \<open>min_content_length = 100\<close>; \<open>min_answer_length\<close> is not read by \<open>filter_record\<close>. A text of
  150 letters passes with the default configuration.
\<close>

theorem passes_below_min_answer_length:
  "filter_record (replicate 150 (CHR ''a'')) None None = (True, '''')"
  by code_simp

text \<open>
  Claim C5, amended. With the default configuration and no override, a text shorter than
  100 characters is rejected as \<open>too_short\<close>, a text of at least 100 and more than 8000
  characters as \<open>too_long\<close>, and no text of 100 characters or more is rejected as
  \<open>too_short\<close>. The bounds 200 and 8000 hold when the caller passes
  \<open>min_length = config.min_answer_length\<close>, as the pipeline does.
\<close>

theorem default_length_bounds:
  "(length t < 100 \<longrightarrow> filter_record t None None = (False, ''too_short''))
   \<and> (100 \<le> length t \<and> length t > 8000 \<longrightarrow> filter_record t None None = (False, ''too_long''))
   \<and> (100 \<le> length t \<longrightarrow> snd (filter_record t None None) \<noteq> ''too_short'')
   \<and> (length t < 200 \<longrightarrow>
        filter_record t None (Some (min_answer_length default_filter_config))
          = (False, ''too_short''))
   \<and> (200 \<le> length t \<and> length t > 8000 \<longrightarrow>
        filter_record t None (Some (min_answer_length default_filter_config))
          = (False, ''too_long''))"
  by (simp add: filter_record_def default_filter_config_def Let_def)

text \<open>The amended claim at texts of 50, 150 and 8001 letters.\<close>

theorem default_length_bounds_witness:
  "length (replicate 50 (CHR ''a'')) < 100
   \<and> filter_record (replicate 50 (CHR ''a'')) None None = (False, ''too_short'')
   \<and> 100 \<le> length (replicate 8001 (CHR ''a'')) \<and> length (replicate 8001 (CHR ''a'')) > 8000
   \<and> filter_record (replicate 8001 (CHR ''a'')) None None = (False, ''too_long'')
   \<and> 100 \<le> length (replicate 150 (CHR ''a''))
   \<and> snd (filter_record (replicate 150 (CHR ''a'')) None None) \<noteq> ''too_short''
   \<and> length (replicate 150 (CHR ''a'')) < 200
   \<and> filter_record (replicate 150 (CHR ''a'')) None (Some (min_answer_length default_filter_config))
       = (False, ''too_short'')
   \<and> 200 \<le> length (replicate 8001 (CHR ''a''))
   \<and> filter_record (replicate 8001 (CHR ''a'')) None (Some (min_answer_length default_filter_config))
       = (False, ''too_long'')"
  using default_length_bounds [of "replicate 50 (CHR ''a'')"]
    default_length_bounds [of "replicate 8001 (CHR ''a'')"]
    default_length_bounds [of "replicate 150 (CHR ''a'')"]
  by simp

section \<open>Properties of the validator\<close>

lemma map_of_dict_set_same: "map_of (dict_set d k v) k = Some v"
  by (induction d) auto

lemma map_of_dict_set_other: "k' \<noteq> k \<Longrightarrow> map_of (dict_set d k v) k' = map_of d k'"
  by (induction d) auto

lemma collect_sources_set:
  "collect_sources S rs = Inr S' \<Longrightarrow>
   set_key ` set S' = set_key ` set S \<union> set_key ` (\<lambda>r. dict_get r ''source'' (JStr ''unknown'')) ` set rs
   \<and> (distinct (map set_key S) \<longrightarrow> distinct (map set_key S'))"
proof (induction rs arbitrary: S)
  case Nil
  then show ?case by simp
next
  case (Cons r rs)
  let ?v = "dict_get r ''source'' (JStr ''unknown'')"
  from Cons.prems have h: "hashable ?v" and rest: "collect_sources (set_add S ?v) rs = Inr S'"
    by (auto simp: Let_def split: if_splits)
  have a: "set_key ` set (set_add S ?v) = insert (set_key ?v) (set_key ` set S)"
    by (auto simp: set_add_def)
  have d: "distinct (map set_key S) \<Longrightarrow> distinct (map set_key (set_add S ?v))"
    by (auto simp: set_add_def)
  from Cons.IH[OF rest] a d show ?case by auto
qed

lemma collect_sources_count:
  assumes "collect_sources [] rs = Inr S'"
  shows "length S' = card (set_key ` (\<lambda>r. dict_get r ''source'' (JStr ''unknown'')) ` set rs)"
proof -
  from collect_sources_set[OF assms]
  have s: "set_key ` set S' = set_key ` (\<lambda>r. dict_get r ''source'' (JStr ''unknown'')) ` set rs"
    and d: "distinct (map set_key S')" by auto
  have "length S' = length (map set_key S')" by simp
  also have "\<dots> = card (set (map set_key S'))" using d by (simp only: distinct_card)
  finally show ?thesis using s by simp
qed

lemma collect_sources_total:
  "\<forall>r \<in> set rs. is_jstr (dict_get r ''source'' (JStr ''unknown'')) \<Longrightarrow>
   list_all is_jstr S \<Longrightarrow>
   \<exists>S'. collect_sources S rs = Inr S' \<and> list_all is_jstr S'"
proof (induction rs arbitrary: S)
  case Nil
  then show ?case by simp
next
  case (Cons r rs)
  let ?v = "dict_get r ''source'' (JStr ''unknown'')"
  from Cons.prems have j: "is_jstr ?v" by simp
  then have h: "hashable ?v" by (cases ?v) auto
  from j Cons.prems(2) have "list_all is_jstr (set_add S ?v)" by (simp add: set_add_def)
  from Cons.IH[OF _ this] Cons.prems(1) h show ?case by (simp add: Let_def)
qed

lemma py_sorted_strings: "list_all is_jstr S \<Longrightarrow> \<exists>l. py_sorted S = Inr l"
  by (simp add: py_sorted_def)

text \<open>
  Claim C6, as stated, fails: \<open>_validate_quality\<close> returns right after the volume check when
  the batch is too small. For a batch of two records and the default minimum of 10 the only
  effect is the format error; \<open>stats\<close> stays empty and holds no \<open>unique_sources\<close>.
\<close>

theorem no_sources_below_minimum:
  "validate_quality default_validator small_batch (new_result 2)
     = (Inr (), (new_result 2)\<lparr>format_errors := [''Too few records: 2 < minimum 10'']\<rparr>)
   \<and> map_of (stats (snd (validate_quality default_validator small_batch (new_result 2))))
         ''unique_sources'' = None"
  by code_simp

text \<open>
  Claim C6, amended. For a batch smaller than \<open>min_records\<close>, \<open>_validate_quality\<close> adds the
  format error "Too few records" and nothing else. For a batch of at least \<open>min_records\<close>
  records on which it returns, \<open>stats["unique_sources"]\<close> is the number of distinct \<open>source\<close>
  values, a missing \<open>source\<close> counted as \<open>"unknown"\<close>, whatever the length statistics and
  warnings are. It returns for every such batch whose answer lengths can be taken and whose
  sources are strings or missing.
\<close>

theorem source_diversity_reported:
  "(int (length records) < min_records v \<longrightarrow>
      validate_quality v records result
        = (Inr (), result\<lparr>format_errors := format_errors result @
             [''Too few records: '' @ str_int (int (length records)) @ '' < minimum '' @
              str_int (min_records v)]\<rparr>))
   \<and> (min_records v \<le> int (length records)
        \<and> validate_quality v records result = (Inr (), r') \<longrightarrow>
      map_of (stats r') ''unique_sources''
        = Some (JInt (int (card (set_key `
            (\<lambda>r. dict_get r ''source'' (JStr ''unknown'')) ` set records)))))
   \<and> (min_records v \<le> int (length records) \<and> answer_lengths records = Inr lens
        \<and> (\<forall>r \<in> set records. is_jstr (dict_get r ''source'' (JStr ''unknown''))) \<longrightarrow>
      fst (validate_quality v records result) = Inr ())"
proof (intro conjI impI)
  assume "int (length records) < min_records v"
  then show "validate_quality v records result
        = (Inr (), result\<lparr>format_errors := format_errors result @
             [''Too few records: '' @ str_int (int (length records)) @ '' < minimum '' @
              str_int (min_records v)]\<rparr>)"
    by (simp add: validate_quality_def)
next
  assume a: "min_records v \<le> int (length records)
             \<and> validate_quality v records result = (Inr (), r')"
  then obtain srcs sorted_srcs r1 where
    c: "collect_sources [] records = Inr srcs"
    and r: "r' = (r1\<lparr>stats := dict_set (stats r1) ''unique_sources'' (JInt (int (length srcs)))\<rparr>)
                 \<lparr>stats := dict_set (dict_set (stats r1) ''unique_sources''
                                         (JInt (int (length srcs))))
                              ''source_list'' (JList (take 20 sorted_srcs))\<rparr>"
    by (auto simp: validate_quality_def Let_def split: sum.splits)
  show "map_of (stats r') ''unique_sources''
        = Some (JInt (int (card (set_key `
            (\<lambda>r. dict_get r ''source'' (JStr ''unknown'')) ` set records))))"
    unfolding r using collect_sources_count[OF c]
    by (simp add: map_of_dict_set_other map_of_dict_set_same)
next
  assume a: "min_records v \<le> int (length records) \<and> answer_lengths records = Inr lens
        \<and> (\<forall>r \<in> set records. is_jstr (dict_get r ''source'' (JStr ''unknown'')))"
  then obtain S' where c: "collect_sources [] records = Inr S'" and j: "list_all is_jstr S'"
    using collect_sources_total[of records "[]"] by auto
  from py_sorted_strings[OF j] obtain l where s: "py_sorted S' = Inr l" by blast
  show "fst (validate_quality v records result) = Inr ()"
    using a c s by (simp add: validate_quality_def Let_def)
qed

lemma full_batch_returns:
  "fst (validate_quality default_validator full_batch (new_result 10)) = Inr ()"
  by code_simp

lemma full_batch_sources:
  "set_key ` (\<lambda>r. dict_get r ''source'' (JStr ''unknown'')) ` set full_batch
   = {JStr ''nist'', JStr ''ecfr''}"
  by (auto simp: full_batch_def chat_record_def dict_get_def)

text \<open>The amended claim at \<open>small_batch\<close> and at \<open>full_batch\<close>, which has two sources.\<close>

theorem source_diversity_reported_witness:
  "int (length small_batch) < min_records default_validator
   \<and> validate_quality default_validator small_batch (new_result 2)
        = (Inr (), (new_result 2)\<lparr>format_errors := format_errors (new_result 2) @
             [''Too few records: '' @ str_int (int (length small_batch)) @ '' < minimum '' @
              str_int (min_records default_validator)]\<rparr>)
   \<and> min_records default_validator \<le> int (length full_batch)
   \<and> fst (validate_quality default_validator full_batch (new_result 10)) = Inr ()
   \<and> map_of (stats (snd (validate_quality default_validator full_batch (new_result 10))))
         ''unique_sources'' = Some (JInt 2)"
proof -
  let ?r = "snd (validate_quality default_validator full_batch (new_result 10))"
  have h1: "int (length small_batch) < min_records default_validator"
    by (simp add: small_batch_def default_validator_def)
  have h2: "min_records default_validator \<le> int (length full_batch)"
    by (simp add: full_batch_def default_validator_def)
  have h3: "validate_quality default_validator full_batch (new_result 10) = (Inr (), ?r)"
    using full_batch_returns by (simp add: prod_eq_iff)
  have h4: "card {JStr ''nist'', JStr ''ecfr''} = 2" by simp
  show ?thesis
    using h1 h2 h3 h4 full_batch_returns full_batch_sources
      source_diversity_reported [where v = default_validator and records = small_batch
        and result = "new_result 2"]
      source_diversity_reported [where v = default_validator and records = full_batch
        and result = "new_result 10" and r' = ?r]
    by simp
qed

end
